theory Spec2Isabelle
  imports Complex_Main
begin

section \<open>JavaScript values used by the viewer\<close>

text \<open>
  The viewer is src/html/VisualFotScript.js. Its two components with behaviour of their
  own are the class \<^verbatim>\<open>OBJLoader\<close> (a textual mesh reader) and the class
  \<^verbatim>\<open>OrbitControls\<close> (an orbiting camera). Both are embedded below, function by
  function, under the names the script uses.

  A JavaScript string is a sequence of UTF-16 code units; a code unit is a natural
  number here. A JavaScript number is a binary64 float. The embedding keeps the special
  values \<open>NaN\<close>, \<open>+Infinity\<close> and \<open>-Infinity\<close> and idealises every other number as the
  exact real it denotes: rounding to binary64, overflow to infinity and the sign of zero
  are outside the model. An array element that does not exist reads as \<open>undefined\<close>.
\<close>

type_synonym jsstring = "nat list"

definition js :: "string \<Rightarrow> jsstring" where
  "js s = map of_char s"

datatype jsnum = NaN | PosInf | NegInf | Fin real

datatype jsval = Undefined | Number jsnum

datatype error = TypeError | FailedToLoad

text \<open>\<^verbatim>\<open>a - b\<close> on numbers.\<close>

fun js_sub :: "jsnum \<Rightarrow> jsnum \<Rightarrow> jsnum" where
  "js_sub NaN _ = NaN"
| "js_sub _ NaN = NaN"
| "js_sub (Fin a) (Fin b) = Fin (a - b)"
| "js_sub (Fin _) PosInf = NegInf"
| "js_sub (Fin _) NegInf = PosInf"
| "js_sub PosInf PosInf = NaN"
| "js_sub PosInf _ = PosInf"
| "js_sub NegInf NegInf = NaN"
| "js_sub NegInf _ = NegInf"

text \<open>\<^verbatim>\<open>xs[i]\<close> on an array: the element, or nothing (\<open>undefined\<close>) past the end.\<close>

definition js_nth :: "'a list \<Rightarrow> nat \<Rightarrow> 'a option" where
  "js_nth xs i = (if i < length xs then Some (xs ! i) else None)"

definition js_get :: "jsnum list \<Rightarrow> nat \<Rightarrow> jsval" where
  "js_get xs i = (case js_nth xs i of None \<Rightarrow> Undefined | Some x \<Rightarrow> Number x)"

subsection \<open>String built-ins\<close>

text \<open>
  White space and line terminators of ECMAScript: what \<^verbatim>\<open>trim\<close> strips, what the
  regular expression \<^verbatim>\<open>\s\<close> matches and what \<^verbatim>\<open>parseInt\<close> and
  \<^verbatim>\<open>parseFloat\<close> skip at the start.
\<close>

definition isWhiteSpace :: "nat \<Rightarrow> bool" where
  "isWhiteSpace c \<longleftrightarrow>
     c = 9 \<or> c = 10 \<or> c = 11 \<or> c = 12 \<or> c = 13 \<or> c = 32 \<or> c = 160 \<or> c = 5760 \<or>
     (8192 \<le> c \<and> c \<le> 8202) \<or> c = 8232 \<or> c = 8233 \<or> c = 8239 \<or> c = 8287 \<or>
     c = 12288 \<or> c = 65279"

definition trim :: "jsstring \<Rightarrow> jsstring" where
  "trim s = rev (dropWhile isWhiteSpace (rev (dropWhile isWhiteSpace s)))"

definition startsWith :: "jsstring \<Rightarrow> jsstring \<Rightarrow> bool" where
  "startsWith p s \<longleftrightarrow> take (length p) s = p"

text \<open>\<^verbatim>\<open>s.split(d)\<close> for a one-character separator: never empty, \<^verbatim>\<open>''.split(d) = ['']\<close>.\<close>

fun split_on :: "nat \<Rightarrow> jsstring \<Rightarrow> jsstring list" where
  "split_on d [] = [[]]"
| "split_on d (c # cs) =
     (if c = d then [] # split_on d cs
      else (case split_on d cs of [] \<Rightarrow> [[c]] | t # ts \<Rightarrow> (c # t) # ts))"

text \<open>
  \<^verbatim>\<open>s.split(/\s+/)\<close>: the pieces between maximal runs of white space. A run at the
  start or at the end leaves an empty piece there.
\<close>

function split_ws :: "jsstring \<Rightarrow> jsstring list" where
  "split_ws [] = [[]]"
| "split_ws (c # cs) =
     (if isWhiteSpace c then [] # split_ws (dropWhile isWhiteSpace cs)
      else (case split_ws cs of [] \<Rightarrow> [[c]] | t # ts \<Rightarrow> (c # t) # ts))"
  by pat_completeness auto
termination
  by (relation "measure length") (auto simp: length_dropWhile_le less_Suc_eq_le)

subsection \<open>Numeric built-ins\<close>

definition isDigit :: "nat \<Rightarrow> bool" where
  "isDigit c \<longleftrightarrow> 48 \<le> c \<and> c \<le> 57"

definition digitOf :: "nat \<Rightarrow> nat option" where
  "digitOf c =
     (if 48 \<le> c \<and> c \<le> 57 then Some (c - 48)
      else if 97 \<le> c \<and> c \<le> 122 then Some (c - 87)
      else if 65 \<le> c \<and> c \<le> 90 then Some (c - 55)
      else None)"

definition isRadixDigit :: "nat \<Rightarrow> nat \<Rightarrow> bool" where
  "isRadixDigit r c = (case digitOf c of None \<Rightarrow> False | Some d \<Rightarrow> d < r)"

definition radixValue :: "nat \<Rightarrow> jsstring \<Rightarrow> nat" where
  "radixValue r ds = foldl (\<lambda>a c. r * a + (case digitOf c of None \<Rightarrow> 0 | Some d \<Rightarrow> d)) 0 ds"

definition isSign :: "jsstring \<Rightarrow> bool" where
  "isSign t \<longleftrightarrow> (case t of [] \<Rightarrow> False | c # _ \<Rightarrow> c = 43 \<or> c = 45)"

definition isMinus :: "jsstring \<Rightarrow> bool" where
  "isMinus t \<longleftrightarrow> (case t of [] \<Rightarrow> False | c # _ \<Rightarrow> c = 45)"

text \<open>
  \<^verbatim>\<open>parseInt(s)\<close> without a radix: leading white space is skipped, a sign is read, the
  prefix \<^verbatim>\<open>0x\<close> or \<^verbatim>\<open>0X\<close> selects radix 16, and the longest run of digits is the
  value. No digit gives \<open>NaN\<close>, which is \<open>None\<close> here.
\<close>

definition parseInt :: "jsstring \<Rightarrow> int option" where
  "parseInt s =
     (let t = dropWhile isWhiteSpace s;
          t1 = (if isSign t then tl t else t);
          hex = (startsWith (js ''0x'') t1 \<or> startsWith (js ''0X'') t1);
          R = (if hex then 16 else 10);
          ds = takeWhile (isRadixDigit R) (if hex then drop 2 t1 else t1)
      in if ds = [] then None
         else Some ((if isMinus t then - 1 else 1) * int (radixValue R ds)))"

text \<open>The exponent part of a decimal literal, 0 when there is none.\<close>

definition exponentPart :: "jsstring \<Rightarrow> int" where
  "exponentPart r =
     (case r of [] \<Rightarrow> 0
      | c # r1 \<Rightarrow>
          if c = 101 \<or> c = 69 then
            (let ds = takeWhile isDigit (if isSign r1 then tl r1 else r1)
             in if ds = [] then 0
                else (if isMinus r1 then - 1 else 1) * int (radixValue 10 ds))
          else 0)"

definition scale10 :: "real \<Rightarrow> int \<Rightarrow> real" where
  "scale10 m e = (if 0 \<le> e then m * 10 ^ nat e else m / 10 ^ nat (- e))"

text \<open>
  \<^verbatim>\<open>parseFloat(s)\<close>: the value of the longest prefix of \<open>s\<close>, after leading white
  space, that is a decimal literal; \<open>NaN\<close> when there is none.
\<close>

definition parseFloat :: "jsstring \<Rightarrow> jsnum" where
  "parseFloat s =
     (let t = dropWhile isWhiteSpace s;
          t1 = (if isSign t then tl t else t)
      in if startsWith (js ''Infinity'') t1 then (if isMinus t then NegInf else PosInf)
         else
           (let ip = takeWhile isDigit t1;
                r1 = dropWhile isDigit t1;
                hasDot = (case r1 of [] \<Rightarrow> False | c # _ \<Rightarrow> c = 46);
                fp = (if hasDot then takeWhile isDigit (tl r1) else []);
                r2 = (if hasDot then dropWhile isDigit (tl r1) else r1)
            in if ip = [] \<and> fp = [] then NaN
               else Fin ((if isMinus t then - 1 else 1) *
                         scale10 (real (radixValue 10 ip) +
                                  real (radixValue 10 fp) / 10 ^ length fp)
                                 (exponentPart r2))))"

text \<open>\<^verbatim>\<open>parseFloat(parts[k])\<close> and \<^verbatim>\<open>parseInt(parts[k])\<close>: a missing element
  is \<open>undefined\<close>, which both functions read as the text \<^verbatim>\<open>undefined\<close>, hence \<open>NaN\<close>.\<close>

definition parseFloat_at :: "jsstring list \<Rightarrow> nat \<Rightarrow> jsnum" where
  "parseFloat_at parts k = (case js_nth parts k of None \<Rightarrow> NaN | Some s \<Rightarrow> parseFloat s)"

definition parseInt_at :: "jsstring list \<Rightarrow> nat \<Rightarrow> int option" where
  "parseInt_at parts k = (case js_nth parts k of None \<Rightarrow> None | Some s \<Rightarrow> parseInt s)"

section \<open>OBJLoader\<close>

text \<open>
  \<^verbatim>\<open>OBJLoader.parse\<close> first scans the text line by line into four arrays:
  \<^verbatim>\<open>vertices\<close>, \<^verbatim>\<open>normals\<close>, \<^verbatim>\<open>uvs\<close> (flat arrays of numbers) and
  \<^verbatim>\<open>faces\<close> (the corner tokens of all \<^verbatim>\<open>f\<close> lines, in order). The calls of
  \<^verbatim>\<open>updateLoadingDetails\<close> only write a progress text into the page and are left out.
\<close>

record pools =
  vertices :: "jsnum list"
  normals :: "jsnum list"
  uvs :: "jsnum list"
  faces :: "jsstring list"

definition empty_pools :: pools where
  "empty_pools = \<lparr>vertices = [], normals = [], uvs = [], faces = []\<rparr>"

text \<open>The body of \<^verbatim>\<open>lines.forEach(line => ...)\<close>.\<close>

definition scan_line :: "pools \<Rightarrow> jsstring \<Rightarrow> pools" where
  "scan_line P line0 =
     (let line = trim line0 in
      if startsWith (js ''v '') line then
        (let parts = split_ws line in
         P\<lparr>vertices := vertices P @
              [parseFloat_at parts 1, parseFloat_at parts 2, parseFloat_at parts 3]\<rparr>)
      else if startsWith (js ''vn '') line then
        (let parts = split_ws line in
         P\<lparr>normals := normals P @
              [parseFloat_at parts 1, parseFloat_at parts 2, parseFloat_at parts 3]\<rparr>)
      else if startsWith (js ''vt '') line then
        (let parts = split_ws line in
         P\<lparr>uvs := uvs P @
              [parseFloat_at parts 1, js_sub (Fin 1) (parseFloat_at parts 2)]\<rparr>)
      else if startsWith (js ''f '') line then
        (let parts = split_ws (trim (drop 2 line)) in
         P\<lparr>faces := faces P @ parts\<rparr>)
      else P)"

definition scan :: "jsstring \<Rightarrow> pools" where
  "scan text = foldl scan_line empty_pools (split_on 10 text)"

text \<open>
  The second phase fills \<^verbatim>\<open>positions\<close>, \<^verbatim>\<open>normalsArray\<close> and
  \<^verbatim>\<open>uvsArray\<close>. \<open>corner\<close> is the body of the inner loop for the token
  \<^verbatim>\<open>faces[i + j]\<close>.
\<close>

record buffers =
  positions :: "jsval list"
  normalsArray :: "jsval list"
  uvsArray :: "jsval list"

definition empty_buffers :: buffers where
  "empty_buffers = \<lparr>positions = [], normalsArray = [], uvsArray = []\<rparr>"

text \<open>\<^verbatim>\<open>indices[k] && indices[k] !== ''\<close>\<close>

definition present :: "jsstring list \<Rightarrow> nat \<Rightarrow> bool" where
  "present indices k = (case js_nth indices k of None \<Rightarrow> False | Some s \<Rightarrow> s \<noteq> [])"

text \<open>\<^verbatim>\<open>(parseInt(indices[k]) - 1) * w\<close>, \<open>None\<close> for \<open>NaN\<close>.\<close>

definition poolIndex :: "jsstring list \<Rightarrow> nat \<Rightarrow> int \<Rightarrow> int option" where
  "poolIndex indices k w = map_option (\<lambda>n. (n - 1) * w) (parseInt_at indices k)"

text \<open>\<^verbatim>\<open>idx >= 0 && idx < pool.length\<close>, false when \<open>idx\<close> is \<open>NaN\<close>.\<close>

definition inPool :: "int option \<Rightarrow> jsnum list \<Rightarrow> bool" where
  "inPool idx pool = (case idx of None \<Rightarrow> False | Some v \<Rightarrow> 0 \<le> v \<and> v < int (length pool))"

definition corner :: "pools \<Rightarrow> jsstring \<Rightarrow> buffers \<Rightarrow> buffers" where
  "corner P tok B =
     (let indices = split_on 47 tok;
          vIdx = poolIndex indices 0 3;
          B1 = (if inPool vIdx (vertices P) then
                  (let v = nat (the vIdx) in
                   B\<lparr>positions := positions B @
                        [js_get (vertices P) v, js_get (vertices P) (v + 1),
                         js_get (vertices P) (v + 2)]\<rparr>)
                else B);
          B2 = (if present indices 1 then
                  (let uvIdx = poolIndex indices 1 2 in
                   if inPool uvIdx (uvs P) then
                     (let u = nat (the uvIdx) in
                      B1\<lparr>uvsArray := uvsArray B1 @
                            [js_get (uvs P) u, js_get (uvs P) (u + 1)]\<rparr>)
                   else B1)
                else B1)
      in if present indices 2 then
           (let nIdx = poolIndex indices 2 3 in
            if inPool nIdx (normals P) then
              (let n = nat (the nIdx) in
               B2\<lparr>normalsArray := normalsArray B2 @
                     [js_get (normals P) n, js_get (normals P) (n + 1),
                      js_get (normals P) (n + 2)]\<rparr>)
            else B2)
         else B2)"

text \<open>
  The inner loop \<^verbatim>\<open>for (let j = 0; j < 3; j++)\<close>. Reading \<^verbatim>\<open>faces[i + j]\<close> past the
  end gives \<open>undefined\<close>, and \<^verbatim>\<open>undefined.split('/')\<close> throws a TypeError.
\<close>

function inner :: "pools \<Rightarrow> nat \<Rightarrow> nat \<Rightarrow> buffers \<Rightarrow> error + buffers" where
  "inner P i j B =
     (if j < 3 then
        (case js_nth (faces P) (i + j) of
           None \<Rightarrow> Inl TypeError
         | Some tok \<Rightarrow> inner P i (j + 1) (corner P tok B))
      else Inr B)"
  by pat_completeness auto
termination
  by (relation "measure (\<lambda>(P, i, j, B). 3 - j)") auto

text \<open>The outer loop \<^verbatim>\<open>for (let i = 0; i < faces.length; i += 3)\<close>.\<close>

function build :: "pools \<Rightarrow> nat \<Rightarrow> buffers \<Rightarrow> error + buffers" where
  "build P i B =
     (if i < length (faces P) then
        (case inner P i 0 B of
           Inl e \<Rightarrow> Inl e
         | Inr B' \<Rightarrow> build P (i + 3) B')
      else Inr B)"
  by pat_completeness auto
termination
  by (relation "measure (\<lambda>(P, i, B). length (faces P) - i)") auto

text \<open>
  The result of \<^verbatim>\<open>parse\<close>: the arrays given to the geometry. The position attribute is
  always set; the normal attribute is \<^verbatim>\<open>normalsArray\<close> when that is not empty, and
  otherwise left to the rendering library (\<open>None\<close>); the uv attribute is set only when
  \<^verbatim>\<open>uvsArray\<close> is not empty. The conversion of the arrays to 32-bit floats and the
  material are the library's and not modelled.
\<close>

record mesh =
  position_attribute :: "jsval list"
  normal_attribute :: "jsval list option"
  uv_attribute :: "jsval list option"

definition parse :: "jsstring \<Rightarrow> error + mesh" where
  "parse text =
     (let P = scan text in
      case build P 0 empty_buffers of
        Inl e \<Rightarrow> Inl e
      | Inr B \<Rightarrow>
          Inr \<lparr>position_attribute = positions B,
               normal_attribute =
                 (if length (normalsArray B) > 0 then Some (normalsArray B) else None),
               uv_attribute =
                 (if length (uvsArray B) > 0 then Some (uvsArray B) else None)\<rparr>)"




text \<open>
  Notions the properties below are stated with. The position index of a corner token is
  the number before its first slash; it resolves when it names one of the vertices read.
\<close>

definition vertexCount :: "pools \<Rightarrow> nat" where
  "vertexCount P = length (vertices P) div 3"

definition positionIndex :: "jsstring \<Rightarrow> int option" where
  "positionIndex tok = parseInt_at (split_on 47 tok) 0"

definition resolves :: "pools \<Rightarrow> jsstring \<Rightarrow> bool" where
  "resolves P tok =
     (case positionIndex tok of None \<Rightarrow> False | Some n \<Rightarrow> 1 \<le> n \<and> n \<le> int (vertexCount P))"

text \<open>The coordinates of the \<open>n\<close>-th vertex read (counting from 1), as buffer entries.\<close>

definition vertexAt :: "pools \<Rightarrow> int \<Rightarrow> jsval list" where
  "vertexAt P n =
     (let k = 3 * nat (n - 1)
      in [Number (vertices P ! k), Number (vertices P ! (k + 1)), Number (vertices P ! (k + 2))])"

definition cornerPositions :: "pools \<Rightarrow> jsstring \<Rightarrow> jsval list" where
  "cornerPositions P tok = (if resolves P tok then vertexAt P (the (positionIndex tok)) else [])"

text \<open>What one corner adds to \<^verbatim>\<open>uvsArray\<close>: what it leaves in an empty one.\<close>

definition cornerUVs :: "pools \<Rightarrow> jsstring \<Rightarrow> jsval list" where
  "cornerUVs P tok = uvsArray (corner P tok empty_buffers)"

text \<open>The \<^verbatim>\<open>vt\<close> lines of a text, trimmed, in order, and the two values of such a line
  as the scan reads them.\<close>

definition vtLines :: "jsstring \<Rightarrow> jsstring list" where
  "vtLines text = filter (startsWith (js ''vt '')) (map trim (split_on 10 text))"

definition sourceU :: "jsstring \<Rightarrow> jsnum" where
  "sourceU line = parseFloat_at (split_ws line) 1"

definition sourceV :: "jsstring \<Rightarrow> jsnum" where
  "sourceV line = parseFloat_at (split_ws line) 2"

text \<open>What a \<^verbatim>\<open>vt\<close> line adds to \<^verbatim>\<open>uvs\<close>.\<close>

definition uvEntry :: "jsstring \<Rightarrow> jsnum list" where
  "uvEntry l = [sourceU l, js_sub (Fin 1) (sourceV l)]"

text \<open>The corner groups the outer loop walks through: one per triangle.\<close>

definition faceTriangleCount :: "pools \<Rightarrow> nat" where
  "faceTriangleCount P = length (faces P) div 3"

section \<open>OrbitControls\<close>

text \<open>
  The camera controller. Numbers are real here. The vector and spherical-coordinate
  classes are the rendering library's (three.js); the few methods the controller calls
  are written out as the library defines them.
\<close>

record Vector2 =
  px :: real
  py :: real

record Vector3 =
  vx :: real
  vy :: real
  vz :: real

record Spherical =
  radius :: real
  phi :: real
  theta :: real

definition Vector3_sub :: "Vector3 \<Rightarrow> Vector3 \<Rightarrow> Vector3" where
  "Vector3_sub a b = \<lparr>vx = vx a - vx b, vy = vy a - vy b, vz = vz a - vz b\<rparr>"

definition Vector3_add :: "Vector3 \<Rightarrow> Vector3 \<Rightarrow> Vector3" where
  "Vector3_add a b = \<lparr>vx = vx a + vx b, vy = vy a + vy b, vz = vz a + vz b\<rparr>"

definition Vector3_multiplyScalar :: "Vector3 \<Rightarrow> real \<Rightarrow> Vector3" where
  "Vector3_multiplyScalar a k = \<lparr>vx = vx a * k, vy = vy a * k, vz = vz a * k\<rparr>"

definition Vector3_length :: "Vector3 \<Rightarrow> real" where
  "Vector3_length a = sqrt (vx a * vx a + vy a * vy a + vz a * vz a)"

text \<open>\<^verbatim>\<open>Math.atan2(y, x)\<close> and \<^verbatim>\<open>MathUtils.clamp(value, min, max)\<close>.\<close>

definition atan2 :: "real \<Rightarrow> real \<Rightarrow> real" where
  "atan2 b a =
     (if 0 < a then arctan (b / a)
      else if a < 0 \<and> 0 \<le> b then arctan (b / a) + pi
      else if a < 0 then arctan (b / a) - pi
      else if 0 < b then pi / 2
      else if b < 0 then - (pi / 2)
      else 0)"

definition clamp :: "real \<Rightarrow> real \<Rightarrow> real \<Rightarrow> real" where
  "clamp v lo hi = max lo (min hi v)"

text \<open>\<^verbatim>\<open>Spherical.setFromVector3\<close>, \<^verbatim>\<open>Spherical.makeSafe\<close> and
  \<^verbatim>\<open>Vector3.setFromSpherical\<close>.\<close>

definition setFromVector3 :: "Vector3 \<Rightarrow> Spherical" where
  "setFromVector3 v =
     (let r = sqrt (vx v * vx v + vy v * vy v + vz v * vz v) in
      if r = 0 then \<lparr>radius = r, phi = 0, theta = 0\<rparr>
      else \<lparr>radius = r, phi = arccos (clamp (vy v / r) (- 1) 1), theta = atan2 (vx v) (vz v)\<rparr>)"

definition EPS :: real where
  "EPS = 0.000001"

definition makeSafe :: "Spherical \<Rightarrow> Spherical" where
  "makeSafe sp = sp\<lparr>phi := max EPS (min (pi - EPS) (phi sp))\<rparr>"

definition setFromSpherical :: "Spherical \<Rightarrow> Vector3" where
  "setFromSpherical sp =
     (let sinPhiRadius = sin (phi sp) * radius sp in
      \<lparr>vx = sinPhiRadius * sin (theta sp),
       vy = cos (phi sp) * radius sp,
       vz = sinPhiRadius * cos (theta sp)\<rparr>)"

text \<open>
  The controller's state: its public fields, the variables of the constructor's closure,
  and what it reads from its surroundings: the camera's position, field of view and
  matrix columns 0 and 1, and the height of the page element. The quaternion \<open>quat\<close>
  that \<^verbatim>\<open>update\<close> applies turns the camera's up vector into the Y axis. The script never
  changes the up vector from the library's default, which is the Y axis, so \<open>quat\<close> and
  its inverse are the identity and applying them is omitted.
\<close>

datatype STATE = NONE | ROTATE | DOLLY | PAN

record OrbitControls =
  position :: Vector3
  fov :: real
  matrixColumn0 :: Vector3
  matrixColumn1 :: Vector3
  clientHeight :: real
  target :: Vector3
  minDistance :: real
  maxDistance :: real
  minPolarAngle :: real
  maxPolarAngle :: real
  enableDamping :: bool
  dampingFactor :: real
  enablePan :: bool
  autoRotate :: bool
  autoRotateSpeed :: real
  enabled :: bool
  state :: STATE
  spherical :: Spherical
  sphericalDelta :: Spherical
  scale :: real
  panOffset :: Vector3
  rotateStart :: Vector2
  rotateEnd :: Vector2
  rotateDelta :: Vector2
  panStart :: Vector2
  panEnd :: Vector2
  panDelta :: Vector2

record mouse_event =
  clientX :: real
  clientY :: real
  button :: int

record wheel_event =
  deltaY :: real

definition rotateLeft :: "real \<Rightarrow> OrbitControls \<Rightarrow> OrbitControls" where
  "rotateLeft angle s =
     s\<lparr>sphericalDelta := (sphericalDelta s)\<lparr>theta := theta (sphericalDelta s) - angle\<rparr>\<rparr>"

definition rotateUp :: "real \<Rightarrow> OrbitControls \<Rightarrow> OrbitControls" where
  "rotateUp angle s =
     s\<lparr>sphericalDelta := (sphericalDelta s)\<lparr>phi := phi (sphericalDelta s) - angle\<rparr>\<rparr>"

definition panLeft :: "real \<Rightarrow> Vector3 \<Rightarrow> OrbitControls \<Rightarrow> OrbitControls" where
  "panLeft distance column0 s =
     s\<lparr>panOffset := Vector3_add (panOffset s) (Vector3_multiplyScalar column0 (- distance))\<rparr>"

definition panUp :: "real \<Rightarrow> Vector3 \<Rightarrow> OrbitControls \<Rightarrow> OrbitControls" where
  "panUp distance column1 s =
     s\<lparr>panOffset := Vector3_add (panOffset s) (Vector3_multiplyScalar column1 distance)\<rparr>"

text \<open>
  \<^verbatim>\<open>a / b\<close> where the divisor is read from the page. Dividing by zero gives
  \<open>Infinity\<close> or \<open>NaN\<close> in the source, which is no real number: the quotient is
  \<open>None\<close> then, and so is the result of the handler that computes it.
\<close>

definition divide :: "real \<Rightarrow> real \<Rightarrow> real option" where
  "divide a b = (if b = 0 then None else Some (a / b))"

definition pan :: "real \<Rightarrow> real \<Rightarrow> OrbitControls \<Rightarrow> OrbitControls option" where
  "pan dX dY s =
     (let offset = Vector3_sub (position s) (target s);
          targetDistance = Vector3_length offset * tan ((fov s / 2) * pi / 180)
      in case divide (2 * dX * targetDistance) (clientHeight s) of
           None \<Rightarrow> None
         | Some left \<Rightarrow>
             (let s1 = panLeft left (matrixColumn0 s) s
              in case divide (2 * dY * targetDistance) (clientHeight s1) of
                   None \<Rightarrow> None
                 | Some up \<Rightarrow> Some (panUp up (matrixColumn1 s1) s1)))"

definition dollyIn :: "real \<Rightarrow> OrbitControls \<Rightarrow> OrbitControls" where
  "dollyIn dollyScale s = s\<lparr>scale := scale s / dollyScale\<rparr>"

definition dollyOut :: "real \<Rightarrow> OrbitControls \<Rightarrow> OrbitControls" where
  "dollyOut dollyScale s = s\<lparr>scale := scale s * dollyScale\<rparr>"

text \<open>
  \<^verbatim>\<open>update\<close>, statement by statement: each binding is one assignment of the source,
  to the variable it assigns. \<open>delta0\<close> is \<^verbatim>\<open>sphericalDelta\<close> after the automatic
  rotation, which changes nothing else. The comparison with \<^verbatim>\<open>lastPosition\<close> at its end
  changes nothing the controller or the camera reads and is left out, as is the
  orientation \<^verbatim>\<open>lookAt\<close> gives the camera.
\<close>

definition update :: "OrbitControls \<Rightarrow> OrbitControls" where
  "update s =
     (let offset = Vector3_sub (position s) (target s);
          sph0 = setFromVector3 offset;
          delta0 = sphericalDelta
                     (if autoRotate s \<and> state s = NONE
                      then rotateLeft (2 * pi / 60 / 60 * autoRotateSpeed s) s else s);
          sph1 = sph0\<lparr>theta := theta sph0 + theta delta0\<rparr>;
          sph2 = sph1\<lparr>phi := phi sph1 + phi delta0\<rparr>;
          sph3 = sph2\<lparr>phi := max (minPolarAngle s) (min (maxPolarAngle s) (phi sph2))\<rparr>;
          sph4 = makeSafe sph3;
          sph5 = sph4\<lparr>radius := radius sph4 * scale s\<rparr>;
          sph6 = sph5\<lparr>radius := max (minDistance s) (min (maxDistance s) (radius sph5))\<rparr>;
          target1 = Vector3_add (target s) (panOffset s);
          position1 = Vector3_add target1 (setFromSpherical sph6);
          delta1 = (if enableDamping s then
                      delta0\<lparr>theta := theta delta0 * (1 - dampingFactor s),
                             phi := phi delta0 * (1 - dampingFactor s)\<rparr>
                    else \<lparr>radius = 0, phi = 0, theta = 0\<rparr>);
          panOffset1 = (if enableDamping s then
                          Vector3_multiplyScalar (panOffset s) (1 - dampingFactor s)
                        else \<lparr>vx = 0, vy = 0, vz = 0\<rparr>)
      in s\<lparr>position := position1, target := target1, spherical := sph6,
           sphericalDelta := delta1, panOffset := panOffset1, scale := 1\<rparr>)"



definition moveRotate :: "mouse_event \<Rightarrow> OrbitControls \<Rightarrow> OrbitControls option" where
  "moveRotate event s =
     (let s1 = s\<lparr>rotateEnd := \<lparr>px = clientX event, py = clientY event\<rparr>\<rparr>;
          s2 = s1\<lparr>rotateDelta := \<lparr>px = (px (rotateEnd s1) - px (rotateStart s1)) * 0.5,
                                 py = (py (rotateEnd s1) - py (rotateStart s1)) * 0.5\<rparr>\<rparr>
      in case divide (2 * pi * px (rotateDelta s2)) (clientHeight s2) of
           None \<Rightarrow> None
         | Some left \<Rightarrow>
             (let s3 = rotateLeft left s2
              in case divide (2 * pi * py (rotateDelta s3)) (clientHeight s3) of
                   None \<Rightarrow> None
                 | Some up \<Rightarrow>
                     (let s4 = rotateUp up s3 in Some (s4\<lparr>rotateStart := rotateEnd s4\<rparr>))))"

definition handleMouseMoveRotate :: "mouse_event \<Rightarrow> OrbitControls \<Rightarrow> OrbitControls option" where
  "handleMouseMoveRotate event s = map_option update (moveRotate event s)"

definition movePan :: "mouse_event \<Rightarrow> OrbitControls \<Rightarrow> OrbitControls option" where
  "movePan event s =
     (let s1 = s\<lparr>panEnd := \<lparr>px = clientX event, py = clientY event\<rparr>\<rparr>;
          s2 = s1\<lparr>panDelta := \<lparr>px = (px (panEnd s1) - px (panStart s1)) * 0.5,
                              py = (py (panEnd s1) - py (panStart s1)) * 0.5\<rparr>\<rparr>
      in case pan (px (panDelta s2)) (py (panDelta s2)) s2 of
           None \<Rightarrow> None
         | Some s3 \<Rightarrow> Some (s3\<lparr>panStart := panEnd s3\<rparr>))"

definition handleMouseMovePan :: "mouse_event \<Rightarrow> OrbitControls \<Rightarrow> OrbitControls option" where
  "handleMouseMovePan event s = map_option update (movePan event s)"

definition wheelDolly :: "wheel_event \<Rightarrow> OrbitControls \<Rightarrow> OrbitControls" where
  "wheelDolly event s =
     (if deltaY event < 0 then dollyOut 0.95 s
      else if deltaY event > 0 then dollyIn 0.95 s
      else s)"

definition handleMouseWheel :: "wheel_event \<Rightarrow> OrbitControls \<Rightarrow> OrbitControls" where
  "handleMouseWheel event s = update (wheelDolly event s)"


definition onMouseMove :: "mouse_event \<Rightarrow> OrbitControls \<Rightarrow> OrbitControls option" where
  "onMouseMove event s =
     (if \<not> enabled s then Some s
      else if state s = ROTATE then handleMouseMoveRotate event s
      else if state s = PAN then handleMouseMovePan event s
      else Some s)"







text \<open>
  The controller as \<^verbatim>\<open>init\<close> creates it: the camera at (5, 5, 5) with a field of
  view of 45 degrees, the fields as the constructor sets them (and \<^verbatim>\<open>init\<close> sets them
  again, to the same values). The matrix columns and the height of the element are the
  surroundings' and are parameters.
\<close>

definition new_OrbitControls :: "Vector3 \<Rightarrow> Vector3 \<Rightarrow> real \<Rightarrow> OrbitControls" where
  "new_OrbitControls column0 column1 height =
     \<lparr>position = \<lparr>vx = 5, vy = 5, vz = 5\<rparr>,
      fov = 45,
      matrixColumn0 = column0,
      matrixColumn1 = column1,
      clientHeight = height,
      target = \<lparr>vx = 0, vy = 0, vz = 0\<rparr>,
      minDistance = 0.5,
      maxDistance = 1000,
      minPolarAngle = 0,
      maxPolarAngle = pi,
      enableDamping = True,
      dampingFactor = 0.08,
      enablePan = True,
      autoRotate = True,
      autoRotateSpeed = 0.3,
      enabled = True,
      state = NONE,
      spherical = \<lparr>radius = 1, phi = 0, theta = 0\<rparr>,
      sphericalDelta = \<lparr>radius = 1, phi = 0, theta = 0\<rparr>,
      scale = 1,
      panOffset = \<lparr>vx = 0, vy = 0, vz = 0\<rparr>,
      rotateStart = \<lparr>px = 0, py = 0\<rparr>,
      rotateEnd = \<lparr>px = 0, py = 0\<rparr>,
      rotateDelta = \<lparr>px = 0, py = 0\<rparr>,
      panStart = \<lparr>px = 0, py = 0\<rparr>,
      panEnd = \<lparr>px = 0, py = 0\<rparr>,
      panDelta = \<lparr>px = 0, py = 0\<rparr>\<rparr>"

text \<open>An example: the controller of a page element 600 pixels high, before the renderer
  has first updated the camera's matrix, which is the identity until then.\<close>

definition example_controls :: OrbitControls where
  "example_controls =
     new_OrbitControls \<lparr>vx = 1, vy = 0, vz = 0\<rparr> \<lparr>vx = 0, vy = 1, vz = 0\<rparr> 600"

text \<open>The example with the automatic rotation switched off, as \<^verbatim>\<open>toggleRotation\<close>
  does, and a rotation pending.\<close>

definition coasting_controls :: OrbitControls where
  "coasting_controls =
     example_controls\<lparr>autoRotate := False, sphericalDelta := \<lparr>radius = 1, phi = 4, theta = 3\<rparr>\<rparr>"

text \<open>Two states of the controller with the same bounds and the same height of the
  element.\<close>

definition sameBounds :: "OrbitControls \<Rightarrow> OrbitControls \<Rightarrow> bool" where
  "sameBounds t s \<longleftrightarrow>
     minDistance t = minDistance s \<and> maxDistance t = maxDistance s \<and>
     minPolarAngle t = minPolarAngle s \<and> maxPolarAngle t = maxPolarAngle s \<and>
     clientHeight t = clientHeight s"

text \<open>Notions the properties of the controller are stated with: where the camera is
  relative to the target, as the next \<^verbatim>\<open>update\<close> will measure it, and the size of
  the pending rotation.\<close>

definition cameraSpherical :: "OrbitControls \<Rightarrow> Spherical" where
  "cameraSpherical s = setFromVector3 (Vector3_sub (position s) (target s))"

definition cameraDistance :: "OrbitControls \<Rightarrow> real" where
  "cameraDistance s = Vector3_length (Vector3_sub (position s) (target s))"

definition pendingMagnitude :: "OrbitControls \<Rightarrow> real" where
  "pendingMagnitude s = sqrt ((theta (sphericalDelta s))\<^sup>2 + (phi (sphericalDelta s))\<^sup>2)"

section \<open>Properties of OBJLoader\<close>

subsection \<open>The two loops of the second phase\<close>

declare inner.simps [simp del] build.simps [simp del]

lemma inner_unfold:
  "inner P i 0 B =
     (if i + 3 \<le> length (faces P)
      then Inr (corner P (faces P ! (i + 2)) (corner P (faces P ! (i + 1)) (corner P (faces P ! i) B)))
      else Inl TypeError)"
proof -
  have three: "inner P i (Suc (Suc (Suc 0))) X = Inr X" for X
    by (simp add: inner.simps)
  have two: "inner P i (Suc (Suc 0)) X =
      (if i + 2 < length (faces P) then Inr (corner P (faces P ! (i + 2)) X) else Inl TypeError)" for X
    by (subst inner.simps) (simp add: js_nth_def three)
  have one: "inner P i (Suc 0) X =
      (if i + 2 < length (faces P) then Inr (corner P (faces P ! (i + 2)) (corner P (faces P ! (i + 1)) X))
       else Inl TypeError)" for X
    by (subst inner.simps) (simp add: js_nth_def two)
  show ?thesis
    by (subst inner.simps) (simp add: js_nth_def one)
qed

lemma build_triangles:
  "i \<le> length (faces P) \<Longrightarrow> 3 dvd (length (faces P) - i) \<Longrightarrow>
   build P i B = Inr (foldl (\<lambda>b tok. corner P tok b) B (drop i (faces P)))"
proof (induction P i B rule: build.induct)
  case (1 P i B)
  show ?case
  proof (cases "i < length (faces P)")
    case False
    with "1.prems" show ?thesis by (subst build.simps) simp
  next
    case True
    obtain k where k: "length (faces P) - i = 3 * k" using "1.prems"(2) by (auto simp: dvd_def)
    with True have "k \<noteq> 0" by auto
    then obtain k' where k': "k = Suc k'" by (cases k) auto
    with k have le: "i + 3 \<le> length (faces P)" by simp
    have dv: "3 dvd (length (faces P) - (i + 3))" using k k' by (simp add: dvd_def) presburger
    let ?B' = "corner P (faces P ! (i + 2)) (corner P (faces P ! (i + 1)) (corner P (faces P ! i) B))"
    have inn: "inner P i 0 B = Inr ?B'" using le by (simp add: inner_unfold)
    have rec: "build P (i + 3) ?B' = Inr (foldl (\<lambda>b tok. corner P tok b) ?B' (drop (i + 3) (faces P)))"
      using "1.IH"[OF True inn _ dv] le by simp
    have dr: "drop i (faces P) = faces P ! i # faces P ! (i + 1) # faces P ! (i + 2) # drop (i + 3) (faces P)"
      using le by (simp add: Cons_nth_drop_Suc numeral_3_eq_3)
    show ?thesis
      using rec by (subst build.simps) (simp add: True inn dr)
  qed
qed


lemma scan_line_vertices3: "length (vertices (scan_line P l)) mod 3 = length (vertices P) mod 3"
  by (simp add: scan_line_def Let_def)

lemma foldl_scan_vertices3:
  "length (vertices (foldl scan_line P ls)) mod 3 = length (vertices P) mod 3"
  by (induction ls arbitrary: P) (simp_all add: scan_line_vertices3)

lemma scan_vertices3: "3 dvd length (vertices (scan text))"
  using foldl_scan_vertices3[of empty_pools "split_on 10 text"]
  by (simp add: scan_def empty_pools_def dvd_eq_mod_eq_0)

lemma inPool_resolves:
  "3 dvd length (vertices P) \<Longrightarrow>
   inPool (poolIndex (split_on 47 tok) 0 3) (vertices P) = resolves P tok"
  by (auto simp: inPool_def poolIndex_def resolves_def positionIndex_def vertexCount_def dvd_def
      split: option.splits)

lemma positions_corner:
  assumes "3 dvd length (vertices P)"
  shows "positions (corner P tok B) = positions B @ cornerPositions P tok"
proof (cases "resolves P tok")
  case False
  then show ?thesis using inPool_resolves[OF assms, of tok]
    by (simp add: corner_def Let_def cornerPositions_def)
next
  case True
  then obtain n where n: "positionIndex tok = Some n" "1 \<le> n" "n \<le> int (vertexCount P)"
    by (auto simp: resolves_def split: option.splits)
  obtain m where m: "length (vertices P) = 3 * m" using assms by (auto simp: dvd_def)
  have idx: "poolIndex (split_on 47 tok) 0 3 = Some ((n - 1) * 3)"
    using n by (simp add: poolIndex_def positionIndex_def)
  have nat_eq: "nat (n * 3 - 3) = 3 * nat (n - 1)" using n by arith
  have "nat (n - 1) < m" using n m by (simp add: vertexCount_def)
  then have lt: "3 * nat (n - 1) + 2 < length (vertices P)" using m by simp
  show ?thesis using True inPool_resolves[OF assms, of tok] lt
    by (simp add: corner_def Let_def cornerPositions_def idx n nat_eq vertexAt_def js_get_def js_nth_def)
qed

lemma positions_foldl_corner:
  assumes "3 dvd length (vertices P)"
  shows "positions (foldl (\<lambda>b tok. corner P tok b) B toks) =
         positions B @ concat (map (cornerPositions P) toks)"
  by (induction toks arbitrary: B) (simp_all add: positions_corner[OF assms])

lemma length_cornerPositions:
  "length (cornerPositions P tok) = (if resolves P tok then 3 else 0)"
  by (simp add: cornerPositions_def vertexAt_def Let_def)

lemma length_concat_cornerPositions:
  "length (concat (map (cornerPositions P) toks)) = 3 * length (filter (resolves P) toks)"
  by (induction toks) (simp_all add: length_cornerPositions)


lemmas js_eval =
  js_def scan_def scan_line_def trim_def isWhiteSpace_def startsWith_def
  parseFloat_at_def parseInt_at_def js_nth_def js_get_def parseFloat_def parseInt_def
  isSign_def isMinus_def isDigit_def isRadixDigit_def radixValue_def digitOf_def
  exponentPart_def scale10_def empty_pools_def empty_buffers_def
  corner_def poolIndex_def inPool_def present_def Let_def
  positionIndex_def resolves_def vertexCount_def

lemma parse_triangles:
  assumes "3 dvd length (faces (scan text))"
  shows "\<exists>m. parse text = Inr m \<and>
    position_attribute m = concat (map (cornerPositions (scan text)) (faces (scan text)))"
proof -
  have b: "build (scan text) 0 empty_buffers =
      Inr (foldl (\<lambda>b tok. corner (scan text) tok b) empty_buffers (faces (scan text)))"
    using build_triangles[of 0 "scan text" empty_buffers] assms by simp
  have e: "positions empty_buffers = []" by (simp add: empty_buffers_def)
  show ?thesis
    by (simp add: parse_def b positions_foldl_corner[OF scan_vertices3] e)
qed


lemma concat_cornerPositions_all:
  "list_all (resolves P) toks \<Longrightarrow>
   concat (map (cornerPositions P) toks) = concat (map (\<lambda>tok. vertexAt P (the (positionIndex tok))) toks)"
  by (induction toks) (simp_all add: cornerPositions_def)

lemma filter_all: "list_all Q xs \<Longrightarrow> filter Q xs = xs"
  by (induction xs) simp_all

subsection \<open>Position buffer of a mesh whose corners all resolve\<close>

text \<open>
  C1: for every mesh text in which every face corner's 1-based position index resolves
  into the vertex pool, \<^verbatim>\<open>parse\<close> returns a position buffer of exactly
  3 * 3 * faceTriangleCount entries, the coordinates of the corners' vertices in corner
  order. In particular, for an input with 4 vertices read and the single face line
  \<^verbatim>\<open>f 1 2 3\<close>, the buffer has exactly 9 entries: the coordinates of vertices 1, 2 and
  3 in that order. A mesh text has triangles for faces, so that its face corners come in
  groups of three: that is the condition \<open>3 dvd length (faces (scan text))\<close>.
\<close>

theorem c1_triangles:
  "(\<forall>text. list_all (resolves (scan text)) (faces (scan text)) \<and>
           3 dvd length (faces (scan text)) \<longrightarrow>
      (\<exists>m. parse text = Inr m \<and>
           length (position_attribute m) = 3 * 3 * faceTriangleCount (scan text) \<and>
           position_attribute m =
             concat (map (\<lambda>tok. vertexAt (scan text) (the (positionIndex tok)))
                         (faces (scan text))))) \<and>
   (\<forall>text. length (vertices (scan text)) = 3 * 4 \<and>
           faces (scan text) = [js ''1'', js ''2'', js ''3''] \<longrightarrow>
      (\<exists>m. parse text = Inr m \<and> length (position_attribute m) = 9 \<and>
           position_attribute m = map Number (take 9 (vertices (scan text)))))"
proof (intro conjI allI impI)
  fix inp
  assume a: "list_all (resolves (scan inp)) (faces (scan inp)) \<and>
             3 dvd length (faces (scan inp))"
  then obtain m where m: "parse inp = Inr m"
    "position_attribute m = concat (map (cornerPositions (scan inp)) (faces (scan inp)))"
    using parse_triangles by blast
  have len: "length (position_attribute m) = 3 * length (faces (scan inp))"
    using a by (simp add: m length_concat_cornerPositions filter_all)
  have "length (position_attribute m) = 3 * 3 * faceTriangleCount (scan inp)"
    using a len by (auto simp: faceTriangleCount_def dvd_def)
  then show "\<exists>m. parse inp = Inr m \<and>
           length (position_attribute m) = 3 * 3 * faceTriangleCount (scan inp) \<and>
           position_attribute m =
             concat (map (\<lambda>tok. vertexAt (scan inp) (the (positionIndex tok)))
                         (faces (scan inp)))"
    using a m concat_cornerPositions_all by auto
next
  fix inp
  assume a: "length (vertices (scan inp)) = 3 * 4 \<and>
             faces (scan inp) = [js ''1'', js ''2'', js ''3'']"
  then have d: "3 dvd length (faces (scan inp))" by (simp add: eval_nat_numeral)
  obtain m where m: "parse inp = Inr m"
    "position_attribute m = concat (map (cornerPositions (scan inp)) (faces (scan inp)))"
    using parse_triangles[OF d] by blast
  have p: "positionIndex (js ''1'') = Some 1" "positionIndex (js ''2'') = Some 2"
    "positionIndex (js ''3'') = Some 3"
    by (simp_all add: js_eval)
  have r: "resolves (scan inp) (js ''1'')" "resolves (scan inp) (js ''2'')"
    "resolves (scan inp) (js ''3'')"
    using a by (simp_all add: resolves_def p vertexCount_def)
  obtain v0 v1 v2 v3 v4 v5 v6 v7 v8 v9 v10 v11
    where vs: "vertices (scan inp) = [v0, v1, v2, v3, v4, v5, v6, v7, v8, v9, v10, v11]"
    using a by (auto simp: length_Suc_conv eval_nat_numeral)
  have "position_attribute m = map Number (take 9 (vertices (scan inp)))"
    using a by (simp add: m cornerPositions_def r p vertexAt_def vs eval_nat_numeral)
  then show "\<exists>m. parse inp = Inr m \<and> length (position_attribute m) = 9 \<and>
           position_attribute m = map Number (take 9 (vertices (scan inp)))"
    using m(1) a by auto
qed

theorem c1_triangles_witness:
  "list_all (resolves (scan (js ''v 0 0 0\<newline>v 1 0 0\<newline>v 0 1 0\<newline>v 0 0 1\<newline>f 1 2 3'')))
     (faces (scan (js ''v 0 0 0\<newline>v 1 0 0\<newline>v 0 1 0\<newline>v 0 0 1\<newline>f 1 2 3''))) \<and>
   3 dvd length (faces (scan (js ''v 0 0 0\<newline>v 1 0 0\<newline>v 0 1 0\<newline>v 0 0 1\<newline>f 1 2 3''))) \<and>
   length (vertices (scan (js ''v 0 0 0\<newline>v 1 0 0\<newline>v 0 1 0\<newline>v 0 0 1\<newline>f 1 2 3''))) = 3 * 4 \<and>
   faces (scan (js ''v 0 0 0\<newline>v 1 0 0\<newline>v 0 1 0\<newline>v 0 0 1\<newline>f 1 2 3'')) =
     [js ''1'', js ''2'', js ''3''] \<and>
   (\<exists>m. parse (js ''v 0 0 0\<newline>v 1 0 0\<newline>v 0 1 0\<newline>v 0 0 1\<newline>f 1 2 3'') = Inr m \<and>
        length (position_attribute m) = 3 * 3 * 1 \<and>
        position_attribute m =
          [Number (Fin 0), Number (Fin 0), Number (Fin 0),
           Number (Fin 1), Number (Fin 0), Number (Fin 0),
           Number (Fin 0), Number (Fin 1), Number (Fin 0)])"
proof -
  let ?T = "js ''v 0 0 0\<newline>v 1 0 0\<newline>v 0 1 0\<newline>v 0 0 1\<newline>f 1 2 3''"
  have sc: "scan ?T = \<lparr>vertices = [Fin 0, Fin 0, Fin 0, Fin 1, Fin 0, Fin 0,
      Fin 0, Fin 1, Fin 0, Fin 0, Fin 0, Fin 1], normals = [], uvs = [],
      faces = [js ''1'', js ''2'', js ''3'']\<rparr>"
    by (simp add: js_eval)
  have h1: "list_all (resolves (scan ?T)) (faces (scan ?T))"
    unfolding sc by (simp add: js_eval)
  have h2: "3 dvd length (faces (scan ?T))" unfolding sc by (simp add: eval_nat_numeral)
  have h3: "length (vertices (scan ?T)) = 3 * 4" unfolding sc by simp
  have h4: "faces (scan ?T) = [js ''1'', js ''2'', js ''3'']" unfolding sc by simp
  from c1_triangles have "\<exists>m. parse ?T = Inr m \<and> length (position_attribute m) = 9 \<and>
           position_attribute m = map Number (take 9 (vertices (scan ?T)))"
    using h3 h4 by blast
  moreover from c1_triangles have "\<exists>m. parse ?T = Inr m \<and>
           length (position_attribute m) = 3 * 3 * faceTriangleCount (scan ?T)"
    using h1 h2 by blast
  ultimately have "\<exists>m. parse ?T = Inr m \<and> length (position_attribute m) = 3 * 3 * 1 \<and>
        position_attribute m =
          [Number (Fin 0), Number (Fin 0), Number (Fin 0),
           Number (Fin 1), Number (Fin 0), Number (Fin 0),
           Number (Fin 0), Number (Fin 1), Number (Fin 0)]"
    unfolding sc by (auto simp: eval_nat_numeral)
  with h1 h2 h3 h4 show ?thesis by blast
qed

subsection \<open>A corner whose position index is out of range\<close>

text \<open>
  C2: for every mesh text, its faces triangles, a face corner whose 1-based position
  index is out of range for the vertex pool is dropped silently and does not abort the
  load: \<^verbatim>\<open>parse\<close> returns, the position buffer holds the coordinates of every other
  corner, in order, and when exactly one corner is dropped its length is not a multiple
  of 9.
\<close>

theorem c2_dropped:
  assumes "3 dvd length (faces (scan text))"
  shows "\<exists>m. parse text = Inr m \<and>
    position_attribute m = concat (map (cornerPositions (scan text)) (faces (scan text))) \<and>
    (length (filter (\<lambda>tok. \<not> resolves (scan text) tok) (faces (scan text))) = 1 \<longrightarrow>
       \<not> 9 dvd length (position_attribute m))"
proof -
  obtain m where m: "parse text = Inr m"
    "position_attribute m = concat (map (cornerPositions (scan text)) (faces (scan text)))"
    using parse_triangles[OF assms] by blast
  have len: "length (position_attribute m) = 3 * length (filter (resolves (scan text)) (faces (scan text)))"
    by (simp add: m length_concat_cornerPositions)
  have "\<not> 9 dvd length (position_attribute m)"
    if one: "length (filter (\<lambda>tok. \<not> resolves (scan text) tok) (faces (scan text))) = 1"
  proof -
    obtain k where k: "length (faces (scan text)) = 3 * k" using assms by (auto simp: dvd_def)
    have "length (filter (resolves (scan text)) (faces (scan text))) + 1 = 3 * k"
      using sum_length_filter_compl[of "resolves (scan text)" "faces (scan text)"] one k by simp
    then show ?thesis unfolding len by presburger
  qed
  with m show ?thesis by blast
qed

theorem c2_dropped_witness:
  "3 dvd length (faces (scan (js ''v 0 0 0\<newline>v 1 0 0\<newline>v 0 1 0\<newline>f 1 2 99''))) \<and>
   length (filter (\<lambda>tok. \<not> resolves (scan (js ''v 0 0 0\<newline>v 1 0 0\<newline>v 0 1 0\<newline>f 1 2 99'')) tok)
             (faces (scan (js ''v 0 0 0\<newline>v 1 0 0\<newline>v 0 1 0\<newline>f 1 2 99'')))) = 1 \<and>
   (\<exists>m. parse (js ''v 0 0 0\<newline>v 1 0 0\<newline>v 0 1 0\<newline>f 1 2 99'') = Inr m \<and>
        position_attribute m =
          [Number (Fin 0), Number (Fin 0), Number (Fin 0),
           Number (Fin 1), Number (Fin 0), Number (Fin 0)] \<and>
        \<not> 9 dvd length (position_attribute m))"
proof -
  let ?T = "js ''v 0 0 0\<newline>v 1 0 0\<newline>v 0 1 0\<newline>f 1 2 99''"
  have sc: "scan ?T = \<lparr>vertices = [Fin 0, Fin 0, Fin 0, Fin 1, Fin 0, Fin 0,
      Fin 0, Fin 1, Fin 0], normals = [], uvs = [],
      faces = [js ''1'', js ''2'', js ''99'']\<rparr>"
    by (simp add: js_eval)
  have h1: "3 dvd length (faces (scan ?T))" unfolding sc by (simp add: eval_nat_numeral)
  have h2: "length (filter (\<lambda>tok. \<not> resolves (scan ?T) tok) (faces (scan ?T))) = 1"
    unfolding sc by (simp add: js_eval)
  have cp: "concat (map (cornerPositions (scan ?T)) (faces (scan ?T))) =
      [Number (Fin 0), Number (Fin 0), Number (Fin 0),
       Number (Fin 1), Number (Fin 0), Number (Fin 0)]"
    unfolding sc by (simp add: cornerPositions_def vertexAt_def js_eval)
  from c2_dropped[OF h1] h2 cp have "\<exists>m. parse ?T = Inr m \<and>
        position_attribute m =
          [Number (Fin 0), Number (Fin 0), Number (Fin 0),
           Number (Fin 1), Number (Fin 0), Number (Fin 0)] \<and>
        \<not> 9 dvd length (position_attribute m)"
    by auto
  with h1 h2 show ?thesis by blast
qed

subsection \<open>A texture coordinate is stored with its second value flipped\<close>

lemma vt_not_v:
  assumes "startsWith (js ''vt '') l"
  shows "\<not> startsWith (js ''v '') l" and "\<not> startsWith (js ''vn '') l"
proof -
  have "l = take (length (js ''vt '')) l @ drop (length (js ''vt '')) l" by simp
  then have "l = js ''vt '' @ drop (length (js ''vt '')) l"
    using assms unfolding startsWith_def by metis
  then obtain r where "l = 118 # 116 # 32 # r" by (simp add: js_def)
  then show "\<not> startsWith (js ''v '') l" and "\<not> startsWith (js ''vn '') l"
    by (simp_all add: startsWith_def js_def)
qed

lemma uvs_scan_line:
  "uvs (scan_line P line) =
     uvs P @ (if startsWith (js ''vt '') (trim line) then uvEntry (trim line) else [])"
proof (cases "startsWith (js ''vt '') (trim line)")
  case True
  then show ?thesis using vt_not_v[OF True]
    by (simp add: scan_line_def Let_def uvEntry_def sourceU_def sourceV_def)
next
  case False
  then show ?thesis by (simp add: scan_line_def Let_def)
qed

lemma uvs_foldl_scan_line:
  "uvs (foldl scan_line P ls) =
     uvs P @ concat (map uvEntry (filter (startsWith (js ''vt '')) (map trim ls)))"
  by (induction ls arbitrary: P) (simp_all add: uvs_scan_line)

lemma uvs_scan: "uvs (scan text) = concat (map uvEntry (vtLines text))"
  by (simp add: scan_def uvs_foldl_scan_line vtLines_def empty_pools_def)

lemma concat_pairs:
  "k < length xs \<Longrightarrow>
   concat (map uvEntry xs) ! (2 * k) = sourceU (xs ! k) \<and>
   concat (map uvEntry xs) ! (2 * k + 1) = js_sub (Fin 1) (sourceV (xs ! k)) \<and>
   2 * k + 1 < length (concat (map uvEntry xs))"
proof (induction xs arbitrary: k)
  case Nil
  then show ?case by simp
next
  case (Cons a xs)
  show ?case
  proof (cases k)
    case 0
    then show ?thesis by (simp add: uvEntry_def)
  next
    case (Suc k')
    with Cons.prems have "k' < length xs" by simp
    from Cons.IH[OF this] show ?thesis
      by (simp add: Suc uvEntry_def)
  qed
qed

lemma uvsArray_corner:
  "uvsArray (corner P tok B) = uvsArray B @ cornerUVs P tok"
  unfolding cornerUVs_def corner_def Let_def by (simp add: empty_buffers_def)

lemma uvsArray_foldl_corner:
  "uvsArray (foldl (\<lambda>b tok. corner P tok b) B toks) =
     uvsArray B @ concat (map (cornerUVs P) toks)"
proof (induction toks arbitrary: B)
  case Nil
  show ?case by simp
next
  case (Cons tok toks)
  show ?case by (simp add: Cons uvsArray_corner[of P tok B])
qed

lemma parse_uv:
  assumes "3 dvd length (faces (scan text))"
  shows "\<exists>m. parse text = Inr m \<and>
    uv_attribute m =
      (if concat (map (cornerUVs (scan text)) (faces (scan text))) = [] then None
       else Some (concat (map (cornerUVs (scan text)) (faces (scan text)))))"
proof -
  have b: "build (scan text) 0 empty_buffers =
      Inr (foldl (\<lambda>b tok. corner (scan text) tok b) empty_buffers (faces (scan text)))"
    using build_triangles[of 0 "scan text" empty_buffers] assms by simp
  have e: "uvsArray empty_buffers = []" by (simp add: empty_buffers_def)
  show ?thesis
    by (simp add: parse_def b uvsArray_foldl_corner e)
qed

lemma cornerUVs_of_line:
  assumes "k < length (vtLines text)"
    and "parseInt_at (split_on 47 tok) 1 = Some (int k + 1)"
  shows "cornerUVs (scan text) tok =
           [Number (sourceU (vtLines text ! k)),
            Number (js_sub (Fin 1) (sourceV (vtLines text ! k)))]"
proof -
  note cp = concat_pairs[OF assms(1)]
  have u0: "uvs (scan text) ! (2 * k) = sourceU (vtLines text ! k)"
    using cp by (simp add: uvs_scan)
  have u1: "uvs (scan text) ! (2 * k + 1) = js_sub (Fin 1) (sourceV (vtLines text ! k))"
    using cp by (simp add: uvs_scan)
  have len: "2 * k + 1 < length (uvs (scan text))"
    using cp by (simp add: uvs_scan)
  have e: "parseInt [] = None"
    by (simp add: parseInt_def isSign_def isMinus_def startsWith_def js_def)
  obtain s where s: "js_nth (split_on 47 tok) 1 = Some s" "parseInt s = Some (int k + 1)"
    using assms(2) by (auto simp: parseInt_at_def split: option.splits)
  with e have "s \<noteq> []" by auto
  then have pr: "present (split_on 47 tok) 1"
    using s by (simp add: present_def)
  have idx: "poolIndex (split_on 47 tok) 1 2 = Some (int k * 2)"
    using assms(2) by (simp add: poolIndex_def)
  have inp: "inPool (poolIndex (split_on 47 tok) 1 2) (uvs (scan text))"
    unfolding idx using len by (simp add: inPool_def)
  have n: "nat (the (poolIndex (split_on 47 tok) 1 2)) = 2 * k"
    unfolding idx by simp
  show ?thesis
    using u0 u1 len pr inp n
    unfolding cornerUVs_def
    by (simp add: corner_def Let_def js_get_def js_nth_def empty_buffers_def)
qed

text \<open>
  C3: for every \<^verbatim>\<open>vt\<close> line whose second (V) value \<open>v\<close> lies in [0, 1], the value
  stored in the UV pool is exactly 1 - v, and so is every entry of the UV buffer that
  \<^verbatim>\<open>parse\<close> returns which is resolved from it. Line \<open>k\<close> counts the \<^verbatim>\<open>vt\<close> lines from
  0; corner \<open>j\<close> of the mesh, its faces triangles, names that line by the index k + 1
  after its first slash. The corner's two entries stand in the buffer after those of the
  corners before it, at the offset \<open>length (concat (map ... (take j ...)))\<close>.
\<close>

theorem c3_flipped_v:
  assumes "3 dvd length (faces (scan text))"
    and "k < length (vtLines text)"
    and "sourceV (vtLines text ! k) = Fin v"
    and "0 \<le> v" and "v \<le> 1"
    and "j < length (faces (scan text))"
    and "parseInt_at (split_on 47 (faces (scan text) ! j)) 1 = Some (int k + 1)"
  shows "uvs (scan text) ! (2 * k + 1) = Fin (1 - v) \<and>
         (\<exists>m buf. parse text = Inr m \<and> uv_attribute m = Some buf \<and>
            buf = concat (map (cornerUVs (scan text)) (faces (scan text))) \<and>
            length (concat (map (cornerUVs (scan text)) (take j (faces (scan text))))) + 1
              < length buf \<and>
            buf ! (length (concat (map (cornerUVs (scan text)) (take j (faces (scan text))))))
              = Number (sourceU (vtLines text ! k)) \<and>
            buf ! (length (concat (map (cornerUVs (scan text)) (take j (faces (scan text))))) + 1)
              = Number (Fin (1 - v)))"
proof -
  let ?P = "scan text"
  let ?F = "faces ?P"
  let ?A = "concat (map (cornerUVs ?P) (take j ?F))"
  let ?C = "concat (map (cornerUVs ?P) (drop (Suc j) ?F))"
  let ?u = "Number (sourceU (vtLines text ! k))"
  let ?w = "Number (Fin (1 - v))"
  have u1: "uvs ?P ! (2 * k + 1) = Fin (1 - v)"
    using concat_pairs[OF assms(2)] assms(3) by (simp add: uvs_scan)
  have cu: "cornerUVs ?P (?F ! j) = [?u, ?w]"
    using cornerUVs_of_line[OF assms(2) assms(7)] assms(3) by simp
  have "?F = take j ?F @ ?F ! j # drop (Suc j) ?F"
    using assms(6) by (simp add: id_take_nth_drop)
  then have "concat (map (cornerUVs ?P) ?F) =
      concat (map (cornerUVs ?P) (take j ?F @ ?F ! j # drop (Suc j) ?F))"
    by simp
  then have buf: "concat (map (cornerUVs ?P) ?F) = ?A @ [?u, ?w] @ ?C"
    by (simp add: cu)
  then have ne: "concat (map (cornerUVs ?P) ?F) \<noteq> []" by simp
  obtain m where pm: "parse text = Inr m" and um: "uv_attribute m =
      (if concat (map (cornerUVs ?P) ?F) = [] then None
       else Some (concat (map (cornerUVs ?P) ?F)))"
    using parse_uv[OF assms(1)] by blast
  have m: "parse text = Inr m" "uv_attribute m = Some (concat (map (cornerUVs ?P) ?F))"
    using pm um ne by (simp_all only: if_False)
  have l: "length ?A + 1 < length (concat (map (cornerUVs ?P) ?F))"
    unfolding buf by simp
  have a0: "concat (map (cornerUVs ?P) ?F) ! (length ?A) = ?u"
    unfolding buf by (simp add: nth_append)
  have a1: "concat (map (cornerUVs ?P) ?F) ! (length ?A + 1) = ?w"
    unfolding buf by (simp add: nth_append)
  from u1 m l a0 a1 show ?thesis by blast
qed

theorem c3_flipped_v_witness:
  "3 dvd length (faces (scan (js ''vt 0.25 0.75\<newline>f 1/1 1/1 1/1''))) \<and>
   0 < length (vtLines (js ''vt 0.25 0.75\<newline>f 1/1 1/1 1/1'')) \<and>
   sourceV (vtLines (js ''vt 0.25 0.75\<newline>f 1/1 1/1 1/1'') ! 0) = Fin (3 / 4) \<and>
   (0 :: real) \<le> 3 / 4 \<and> (3 / 4 :: real) \<le> 1 \<and>
   1 < length (faces (scan (js ''vt 0.25 0.75\<newline>f 1/1 1/1 1/1''))) \<and>
   parseInt_at (split_on 47 (faces (scan (js ''vt 0.25 0.75\<newline>f 1/1 1/1 1/1'')) ! 1)) 1 =
     Some (int 0 + 1) \<and>
   uvs (scan (js ''vt 0.25 0.75\<newline>f 1/1 1/1 1/1'')) ! (2 * 0 + 1) = Fin (1 / 4) \<and>
   (\<exists>m buf. parse (js ''vt 0.25 0.75\<newline>f 1/1 1/1 1/1'') = Inr m \<and>
      uv_attribute m = Some buf \<and> buf ! (2 + 1) = Number (Fin (1 / 4)))"
proof -
  let ?T = "js ''vt 0.25 0.75\<newline>f 1/1 1/1 1/1''"
  have fs: "faces (scan ?T) = [js ''1/1'', js ''1/1'', js ''1/1'']"
    by (simp add: js_eval)
  have vl: "vtLines ?T = [js ''vt 0.25 0.75'']"
    by (simp add: vtLines_def js_eval)
  have "length (faces (scan ?T)) = 3" unfolding fs by simp
  then have h0: "3 dvd length (faces (scan ?T))" and h6: "1 < length (faces (scan ?T))"
    by simp_all
  have h1: "0 < length (vtLines ?T)" unfolding vl by simp
  have h2: "sourceV (vtLines ?T ! 0) = Fin (3 / 4)"
    unfolding vl by (simp add: sourceV_def js_eval)
  have h3: "(0 :: real) \<le> 3 / 4" and h4: "(3 / 4 :: real) \<le> 1" by simp_all
  have h7: "parseInt_at (split_on 47 (faces (scan ?T) ! 1)) 1 = Some (int 0 + 1)"
    unfolding fs by (simp add: js_eval)
  have cu: "cornerUVs (scan ?T) (js ''1/1'') =
      [Number (sourceU (vtLines ?T ! 0)), Number (js_sub (Fin 1) (sourceV (vtLines ?T ! 0)))]"
    using cornerUVs_of_line[OF h1, of "js ''1/1''"] h7 unfolding fs by simp
  have off: "length (concat (map (cornerUVs (scan ?T)) (take 1 (faces (scan ?T))))) = 2"
    unfolding fs by (simp add: cu)
  note c = c3_flipped_v[OF h0 h1 h2 h3 h4 h6 h7]
  have a: "uvs (scan ?T) ! (2 * 0 + 1) = Fin (1 / 4)" using c by simp
  have b: "\<exists>m buf. parse ?T = Inr m \<and> uv_attribute m = Some buf \<and>
      buf ! (2 + 1) = Number (Fin (1 / 4))"
    using c unfolding off by auto
  from h0 h1 h2 h3 h4 h6 h7 a b show ?thesis by blast
qed

subsection \<open>Malformed numeric tokens\<close>




subsection \<open>Position indices that are zero or negative\<close>

text \<open>
  C10: for every face corner token whose position index parses to an integer n \<le> 0,
  index 0 and negative (relative) indices included, the corner adds nothing to the
  position buffer and raises no error: the inner loop goes on to the next corner.
\<close>

theorem c10_nonpositive_index:
  assumes "positionIndex tok = Some n" and "n \<le> 0"
  shows "positions (corner P tok B) = positions B \<and>
         (j < 3 \<and> js_nth (faces P) (i + j) = Some tok \<longrightarrow>
            inner P i j B = inner P i (j + 1) (corner P tok B))"
proof -
  have idx: "poolIndex (split_on 47 tok) 0 3 = Some ((n - 1) * 3)"
    using assms(1) by (simp add: poolIndex_def positionIndex_def)
  have "\<not> inPool (poolIndex (split_on 47 tok) 0 3) (vertices P)"
    using assms(2) unfolding idx by (simp add: inPool_def)
  then have "positions (corner P tok B) = positions B"
    by (simp add: corner_def Let_def)
  moreover have "inner P i j B = inner P i (j + 1) (corner P tok B)"
    if "j < 3 \<and> js_nth (faces P) (i + j) = Some tok"
    using that by (subst inner.simps) simp
  ultimately show ?thesis by blast
qed

theorem c10_nonpositive_index_witness:
  "positionIndex (js ''-1/1'') = Some (- 1) \<and> (- 1 :: int) \<le> 0 \<and>
   (0 :: nat) < 3 \<and>
   js_nth (faces \<lparr>vertices = [Fin 1, Fin 2, Fin 3], normals = [], uvs = [],
                   faces = [js ''-1/1'', js ''0'', js ''1'']\<rparr>) (0 + 0) = Some (js ''-1/1'') \<and>
   positions (corner \<lparr>vertices = [Fin 1, Fin 2, Fin 3], normals = [], uvs = [],
                      faces = [js ''-1/1'', js ''0'', js ''1'']\<rparr> (js ''-1/1'') empty_buffers) = [] \<and>
   inner \<lparr>vertices = [Fin 1, Fin 2, Fin 3], normals = [], uvs = [],
          faces = [js ''-1/1'', js ''0'', js ''1'']\<rparr> 0 0 empty_buffers =
     Inr \<lparr>positions = [Number (Fin 1), Number (Fin 2), Number (Fin 3)],
          normalsArray = [], uvsArray = []\<rparr>"
proof -
  let ?P = "\<lparr>vertices = [Fin 1, Fin 2, Fin 3], normals = [], uvs = [],
             faces = [js ''-1/1'', js ''0'', js ''1'']\<rparr>"
  have h1: "positionIndex (js ''-1/1'') = Some (- 1)" by (simp add: js_eval)
  have h2: "(- 1 :: int) \<le> 0" by simp
  have h3: "(0 :: nat) < 3 \<and> js_nth (faces ?P) (0 + 0) = Some (js ''-1/1'')"
    by (simp add: js_nth_def)
  note c = c10_nonpositive_index[OF h1 h2, of ?P empty_buffers 0 0]
  have p: "positions (corner ?P (js ''-1/1'') empty_buffers) = []"
    using c by (simp add: empty_buffers_def)
  have r: "inner ?P 0 (0 + 1) (corner ?P (js ''-1/1'') empty_buffers) =
     Inr \<lparr>positions = [Number (Fin 1), Number (Fin 2), Number (Fin 3)],
          normalsArray = [], uvsArray = []\<rparr>"
    by (simp add: inner.simps js_eval)
  have "inner ?P 0 0 empty_buffers =
     Inr \<lparr>positions = [Number (Fin 1), Number (Fin 2), Number (Fin 3)],
          normalsArray = [], uvsArray = []\<rparr>"
    using c h3 r by simp
  with h1 h2 h3 p show ?thesis by blast
qed

section \<open>Properties of OrbitControls\<close>

subsection \<open>What one update does to each field\<close>

lemma radius_setFromVector3: "radius (setFromVector3 v) = Vector3_length v"
  by (simp add: setFromVector3_def Vector3_length_def Let_def)

lemma update_fields:
  fixes s :: OrbitControls
  defines "c \<equiv> (if autoRotate s \<and> state s = NONE then 2 * pi / 60 / 60 * autoRotateSpeed s else 0)"
  shows update_scale: "scale (update s) = 1"
    and update_radius: "radius (spherical (update s)) =
          max (minDistance s) (min (maxDistance s) (cameraDistance s * scale s))"
    and update_phi: "phi (spherical (update s)) =
          max EPS (min (pi - EPS)
            (max (minPolarAngle s) (min (maxPolarAngle s)
               (phi (cameraSpherical s) + phi (sphericalDelta s)))))"
    and update_offset: "Vector3_sub (position (update s)) (target (update s)) =
          setFromSpherical (spherical (update s))"
    and update_delta_theta: "theta (sphericalDelta (update s)) =
          (if enableDamping s then (theta (sphericalDelta s) - c) * (1 - dampingFactor s) else 0)"
    and update_delta_phi: "phi (sphericalDelta (update s)) =
          (if enableDamping s then phi (sphericalDelta s) * (1 - dampingFactor s) else 0)"
    and update_minDistance: "minDistance (update s) = minDistance s"
    and update_maxDistance: "maxDistance (update s) = maxDistance s"
    and update_minPolarAngle: "minPolarAngle (update s) = minPolarAngle s"
    and update_maxPolarAngle: "maxPolarAngle (update s) = maxPolarAngle s"
    and update_enableDamping: "enableDamping (update s) = enableDamping s"
    and update_dampingFactor: "dampingFactor (update s) = dampingFactor s"
    and update_autoRotate: "autoRotate (update s) = autoRotate s"
    and update_state: "state (update s) = state s"
    and update_clientHeight: "clientHeight (update s) = clientHeight s"
proof -
  define sph0 where "sph0 = setFromVector3 (Vector3_sub (position s) (target s))"
  define delta0 where "delta0 = sphericalDelta
                     (if autoRotate s \<and> state s = NONE
                      then rotateLeft (2 * pi / 60 / 60 * autoRotateSpeed s) s else s)"
  define sph1 where "sph1 = sph0\<lparr>theta := theta sph0 + theta delta0\<rparr>"
  define sph2 where "sph2 = sph1\<lparr>phi := phi sph1 + phi delta0\<rparr>"
  define sph3 where "sph3 = sph2\<lparr>phi := max (minPolarAngle s) (min (maxPolarAngle s) (phi sph2))\<rparr>"
  define sph4 where "sph4 = makeSafe sph3"
  define sph5 where "sph5 = sph4\<lparr>radius := radius sph4 * scale s\<rparr>"
  define sph6 where "sph6 = sph5\<lparr>radius := max (minDistance s) (min (maxDistance s) (radius sph5))\<rparr>"
  define target1 where "target1 = Vector3_add (target s) (panOffset s)"
  define position1 where "position1 = Vector3_add target1 (setFromSpherical sph6)"
  define delta1 where "delta1 = (if enableDamping s then
                      delta0\<lparr>theta := theta delta0 * (1 - dampingFactor s),
                             phi := phi delta0 * (1 - dampingFactor s)\<rparr>
                    else \<lparr>radius = 0, phi = 0, theta = 0\<rparr>)"
  define panOffset1 where "panOffset1 = (if enableDamping s then
                          Vector3_multiplyScalar (panOffset s) (1 - dampingFactor s)
                        else \<lparr>vx = 0, vy = 0, vz = 0\<rparr>)"
  have upd: "update s = s\<lparr>position := position1, target := target1, spherical := sph6,
           sphericalDelta := delta1, panOffset := panOffset1, scale := 1\<rparr>"
    unfolding update_def Let_def position1_def target1_def sph6_def sph5_def sph4_def sph3_def
      sph2_def sph1_def sph0_def delta1_def delta0_def panOffset1_def
    by (rule refl)
  have d0t: "theta delta0 = theta (sphericalDelta s) - c"
    and d0p: "phi delta0 = phi (sphericalDelta s)"
    by (simp_all add: delta0_def c_def rotateLeft_def)
  have r0: "radius sph0 = cameraDistance s"
    by (simp add: sph0_def radius_setFromVector3 cameraDistance_def)
  have p0: "phi sph0 = phi (cameraSpherical s)"
    by (simp add: sph0_def cameraSpherical_def)
  have p2: "phi sph2 = phi (cameraSpherical s) + phi (sphericalDelta s)"
    by (simp add: sph2_def sph1_def p0 d0p)
  have p4: "phi sph4 = max EPS (min (pi - EPS)
            (max (minPolarAngle s) (min (maxPolarAngle s)
               (phi (cameraSpherical s) + phi (sphericalDelta s)))))"
    by (simp add: sph4_def makeSafe_def sph3_def p2)
  have r4: "radius sph4 = cameraDistance s"
    by (simp add: sph4_def makeSafe_def sph3_def sph2_def sph1_def r0)
  have r6: "radius sph6 = max (minDistance s) (min (maxDistance s) (cameraDistance s * scale s))"
    by (simp add: sph6_def sph5_def r4)
  have p6: "phi sph6 = phi sph4"
    by (simp add: sph6_def sph5_def)
  show "scale (update s) = 1" by (simp add: upd)
  show "radius (spherical (update s)) =
          max (minDistance s) (min (maxDistance s) (cameraDistance s * scale s))"
    by (simp add: upd r6)
  show "phi (spherical (update s)) =
          max EPS (min (pi - EPS)
            (max (minPolarAngle s) (min (maxPolarAngle s)
               (phi (cameraSpherical s) + phi (sphericalDelta s)))))"
    by (simp add: upd p6 p4)
  show "Vector3_sub (position (update s)) (target (update s)) =
          setFromSpherical (spherical (update s))"
    by (simp add: upd position1_def Vector3_sub_def Vector3_add_def)
  show "theta (sphericalDelta (update s)) =
          (if enableDamping s then (theta (sphericalDelta s) - c) * (1 - dampingFactor s) else 0)"
    by (simp add: upd delta1_def d0t)
  show "phi (sphericalDelta (update s)) =
          (if enableDamping s then phi (sphericalDelta s) * (1 - dampingFactor s) else 0)"
    by (simp add: upd delta1_def d0p)
  show "minDistance (update s) = minDistance s" by (simp add: upd)
  show "maxDistance (update s) = maxDistance s" by (simp add: upd)
  show "minPolarAngle (update s) = minPolarAngle s" by (simp add: upd)
  show "maxPolarAngle (update s) = maxPolarAngle s" by (simp add: upd)
  show "enableDamping (update s) = enableDamping s" by (simp add: upd)
  show "dampingFactor (update s) = dampingFactor s" by (simp add: upd)
  show "autoRotate (update s) = autoRotate s" by (simp add: upd)
  show "state (update s) = state s" by (simp add: upd)
  show "clientHeight (update s) = clientHeight s" by (simp add: upd)
qed

lemma length_setFromSpherical: "Vector3_length (setFromSpherical sp) = \<bar>radius sp\<bar>"
proof -
  define a where "a = sin (phi sp)"
  define b where "b = cos (phi sp)"
  define e where "e = sin (theta sp)"
  define d where "d = cos (theta sp)"
  define R where "R = radius sp"
  have ab: "a\<^sup>2 + b\<^sup>2 = 1" and ed: "e\<^sup>2 + d\<^sup>2 = 1"
    by (simp_all add: a_def b_def e_def d_def)
  have "a * R * e * (a * R * e) + b * R * (b * R) + a * R * d * (a * R * d) =
        R\<^sup>2 * (a\<^sup>2 * (e\<^sup>2 + d\<^sup>2) + b\<^sup>2)"
    by (simp add: power2_eq_square algebra_simps)
  also have "\<dots> = R\<^sup>2" by (simp add: ab ed)
  finally have sq: "a * R * e * (a * R * e) + b * R * (b * R) + a * R * d * (a * R * d) = R\<^sup>2" .
  have "Vector3_length (setFromSpherical sp) =
        sqrt (a * R * e * (a * R * e) + b * R * (b * R) + a * R * d * (a * R * d))"
    unfolding Vector3_length_def setFromSpherical_def Let_def a_def b_def e_def d_def R_def
    by simp
  also have "\<dots> = \<bar>R\<bar>" unfolding sq by simp
  finally show ?thesis by (simp add: R_def)
qed


lemmas controls_eval = example_controls_def new_OrbitControls_def


lemma example_config:
  "minPolarAngle example_controls = 0" "maxPolarAngle example_controls = pi"
  "minDistance example_controls = 1 / 2" "maxDistance example_controls = 1000"
  "enableDamping example_controls" "dampingFactor example_controls = 2 / 25"
  "autoRotate example_controls" "state example_controls = NONE"
  "autoRotateSpeed example_controls = 3 / 10"
  "theta (sphericalDelta example_controls) = 0" "phi (sphericalDelta example_controls) = 0"
  "clientHeight example_controls = 600"
  by (simp_all add: controls_eval)



lemma moveRotate_Some:
  assumes "clientHeight s \<noteq> 0"
  shows "\<exists>s'. moveRotate ev s = Some s' \<and> sameBounds s' s \<and>
           theta (sphericalDelta s') =
             theta (sphericalDelta s) - pi * (clientX ev - px (rotateStart s)) / clientHeight s \<and>
           phi (sphericalDelta s') =
             phi (sphericalDelta s) - pi * (clientY ev - py (rotateStart s)) / clientHeight s \<and>
           rotateStart s' = \<lparr>px = clientX ev, py = clientY ev\<rparr>"
  using assms unfolding moveRotate_def Let_def divide_def
  by (simp add: rotateLeft_def rotateUp_def sameBounds_def)





lemma radius_after_update:
  assumes "0 \<le> minDistance s" and "minDistance s \<le> maxDistance s"
  shows "minDistance s \<le> cameraDistance (update s) \<and>
         cameraDistance (update s) \<le> maxDistance s \<and>
         cameraDistance (update s) = radius (spherical (update s))"
proof -
  have r: "minDistance s \<le> radius (spherical (update s))"
    "radius (spherical (update s)) \<le> maxDistance s"
    using assms unfolding update_radius by (auto simp: max_def min_def)
  have "cameraDistance (update s) = \<bar>radius (spherical (update s))\<bar>"
    by (simp add: cameraDistance_def update_offset length_setFromSpherical)
  with r assms show ?thesis by simp
qed

subsection \<open>The wheel\<close>

text \<open>
  C5, as stated, fails: a wheel event with negative deltaY calls \<^verbatim>\<open>dollyOut(0.95)\<close>,
  which multiplies the zoom scale by 0.95, and one with positive deltaY calls
  \<^verbatim>\<open>dollyIn(0.95)\<close>, which divides it by 0.95. From the scale 1 of the example,
  a negative deltaY gives 0.95 and not 1 / 0.95, a positive one 1 / 0.95 and not 0.95.
\<close>

theorem c5_counterexample:
  "deltaY \<lparr>deltaY = - 1\<rparr> < 0 \<and>
   scale (wheelDolly \<lparr>deltaY = - 1\<rparr> example_controls) \<noteq> scale example_controls / 0.95 \<and>
   deltaY \<lparr>deltaY = 1\<rparr> > 0 \<and>
   scale (wheelDolly \<lparr>deltaY = 1\<rparr> example_controls) \<noteq> scale example_controls * 0.95"
  by (simp add: wheelDolly_def dollyIn_def dollyOut_def controls_eval)

text \<open>
  C5, amended: for every wheel event with negative deltaY the controller multiplies the
  zoom scale by the fixed dolly factor 0.95, and for every wheel event with positive
  deltaY it divides the zoom scale by 0.95; with deltaY zero the scale is left alone.
  The handler then runs \<^verbatim>\<open>update\<close>, which multiplies the camera's distance by that
  scale, clamps it and resets the scale to 1.
\<close>

theorem c5_wheel:
  "(deltaY ev < 0 \<longrightarrow> scale (wheelDolly ev s) = scale s * 0.95) \<and>
   (deltaY ev > 0 \<longrightarrow> scale (wheelDolly ev s) = scale s / 0.95) \<and>
   (deltaY ev = 0 \<longrightarrow> scale (wheelDolly ev s) = scale s) \<and>
   handleMouseWheel ev s = update (wheelDolly ev s) \<and>
   radius (spherical (handleMouseWheel ev s)) =
     max (minDistance s) (min (maxDistance s) (cameraDistance s * scale (wheelDolly ev s))) \<and>
   scale (handleMouseWheel ev s) = 1"
proof -
  have k: "minDistance (wheelDolly ev s) = minDistance s"
    "maxDistance (wheelDolly ev s) = maxDistance s"
    "cameraDistance (wheelDolly ev s) = cameraDistance s"
    by (simp_all add: wheelDolly_def dollyIn_def dollyOut_def cameraDistance_def)
  have "radius (spherical (handleMouseWheel ev s)) =
     max (minDistance s) (min (maxDistance s) (cameraDistance s * scale (wheelDolly ev s)))"
    by (simp add: handleMouseWheel_def update_radius k)
  moreover have "scale (handleMouseWheel ev s) = 1"
    by (simp add: handleMouseWheel_def update_scale)
  ultimately show ?thesis
    by (simp add: wheelDolly_def dollyIn_def dollyOut_def handleMouseWheel_def)
qed

theorem c5_wheel_witness:
  "deltaY \<lparr>deltaY = - 1\<rparr> < 0 \<and>
   scale (wheelDolly \<lparr>deltaY = - 1\<rparr> example_controls) = 0.95 \<and>
   deltaY \<lparr>deltaY = 1\<rparr> > 0 \<and>
   scale (wheelDolly \<lparr>deltaY = 1\<rparr> example_controls) = 1 / 0.95 \<and>
   deltaY \<lparr>deltaY = 0\<rparr> = 0 \<and>
   scale (wheelDolly \<lparr>deltaY = 0\<rparr> example_controls) = 1 \<and>
   scale (handleMouseWheel \<lparr>deltaY = - 1\<rparr> example_controls) = 1"
proof -
  have sc: "scale example_controls = 1" by (simp add: controls_eval)
  have n: "deltaY \<lparr>deltaY = - 1\<rparr> < 0" and p: "deltaY \<lparr>deltaY = 1\<rparr> > 0"
    and z: "deltaY \<lparr>deltaY = 0\<rparr> = 0"
    by simp_all
  have d: "scale (handleMouseWheel \<lparr>deltaY = - 1\<rparr> example_controls) = 1"
    using c5_wheel[of "\<lparr>deltaY = - 1\<rparr>" example_controls] by blast
  have "scale (wheelDolly \<lparr>deltaY = - 1\<rparr> example_controls) = scale example_controls * 0.95"
    using c5_wheel[of "\<lparr>deltaY = - 1\<rparr>" example_controls] n by blast
  then have a: "scale (wheelDolly \<lparr>deltaY = - 1\<rparr> example_controls) = 0.95"
    by (simp add: sc)
  have "scale (wheelDolly \<lparr>deltaY = 1\<rparr> example_controls) = scale example_controls / 0.95"
    using c5_wheel[of "\<lparr>deltaY = 1\<rparr>" example_controls] p by blast
  then have b: "scale (wheelDolly \<lparr>deltaY = 1\<rparr> example_controls) = 1 / 0.95"
    by (simp add: sc)
  have "scale (wheelDolly \<lparr>deltaY = 0\<rparr> example_controls) = scale example_controls"
    using c5_wheel[of "\<lparr>deltaY = 0\<rparr>" example_controls] z by blast
  then have c: "scale (wheelDolly \<lparr>deltaY = 0\<rparr> example_controls) = 1"
    by (simp add: sc)
  from n p z a b c d show ?thesis by blast
qed

subsection \<open>Rotating with the pointer\<close>

text \<open>
  C6, as stated, fails: the pixel delta is halved before it is turned into an angle. In
  the example, with an element 600 pixels high, moving the pointer 600 pixels to the
  right while rotating accumulates - pi into the azimuthal pending delta, not - 2 pi.
\<close>

theorem c6_counterexample:
  "state (example_controls\<lparr>state := ROTATE\<rparr>) = ROTATE \<and>
   moveRotate \<lparr>clientX = 600, clientY = 0, button = 0\<rparr>
     (example_controls\<lparr>state := ROTATE\<rparr>) \<noteq> None \<and>
   theta (sphericalDelta (the (moveRotate \<lparr>clientX = 600, clientY = 0, button = 0\<rparr>
                                 (example_controls\<lparr>state := ROTATE\<rparr>)))) \<noteq>
   theta (sphericalDelta (example_controls\<lparr>state := ROTATE\<rparr>)) -
     2 * pi * (clientX \<lparr>clientX = 600, clientY = 0, button = 0\<rparr> -
               px (rotateStart (example_controls\<lparr>state := ROTATE\<rparr>))) /
     clientHeight (example_controls\<lparr>state := ROTATE\<rparr>)"
  by (simp add: moveRotate_def divide_def rotateLeft_def rotateUp_def Let_def controls_eval)

text \<open>
  C6, amended: for every pointer-move event while in the Rotating state, with pixel
  delta (dx, dy) since the last sampled position and a viewport height that is not
  zero, the controller accumulates - (pi * dx / viewportHeight) into the azimuthal
  pending delta and - (pi * dy / viewportHeight) into the polar pending delta (the
  pixel delta is multiplied by 0.5), updates the reference position to the new pointer
  position, and then runs \<^verbatim>\<open>update\<close>.
\<close>

theorem c6_rotate:
  assumes "clientHeight s \<noteq> 0"
  shows "\<exists>s'. moveRotate ev s = Some s' \<and>
         theta (sphericalDelta s') =
           theta (sphericalDelta s) - pi * (clientX ev - px (rotateStart s)) / clientHeight s \<and>
         phi (sphericalDelta s') =
           phi (sphericalDelta s) - pi * (clientY ev - py (rotateStart s)) / clientHeight s \<and>
         rotateStart s' = \<lparr>px = clientX ev, py = clientY ev\<rparr> \<and>
         (enabled s \<and> state s = ROTATE \<longrightarrow> onMouseMove ev s = Some (update s'))"
proof -
  obtain s' where s': "moveRotate ev s = Some s'"
    "theta (sphericalDelta s') =
       theta (sphericalDelta s) - pi * (clientX ev - px (rotateStart s)) / clientHeight s"
    "phi (sphericalDelta s') =
       phi (sphericalDelta s) - pi * (clientY ev - py (rotateStart s)) / clientHeight s"
    "rotateStart s' = \<lparr>px = clientX ev, py = clientY ev\<rparr>"
    using moveRotate_Some[OF assms, of ev] by blast
  have "onMouseMove ev s = Some (update s')" if "enabled s \<and> state s = ROTATE"
    using that s'(1) by (simp add: onMouseMove_def handleMouseMoveRotate_def)
  with s' show ?thesis by blast
qed

theorem c6_rotate_witness:
  "clientHeight (example_controls\<lparr>state := ROTATE\<rparr>) \<noteq> 0 \<and>
   enabled (example_controls\<lparr>state := ROTATE\<rparr>) \<and>
   state (example_controls\<lparr>state := ROTATE\<rparr>) = ROTATE \<and>
   (\<exists>s'. moveRotate \<lparr>clientX = 600, clientY = 300, button = 0\<rparr>
            (example_controls\<lparr>state := ROTATE\<rparr>) = Some s' \<and>
         theta (sphericalDelta s') = - pi \<and>
         phi (sphericalDelta s') = - (pi / 2) \<and>
         rotateStart s' = \<lparr>px = 600, py = 300\<rparr> \<and>
         onMouseMove \<lparr>clientX = 600, clientY = 300, button = 0\<rparr>
           (example_controls\<lparr>state := ROTATE\<rparr>) = Some (update s'))"
proof -
  let ?S = "example_controls\<lparr>state := ROTATE\<rparr>"
  let ?e = "\<lparr>clientX = 600, clientY = 300, button = 0\<rparr>"
  have h: "clientHeight ?S \<noteq> 0" by (simp add: controls_eval)
  have en: "enabled ?S" "state ?S = ROTATE" by (simp_all add: controls_eval)
  have v: "clientHeight ?S = 600" "theta (sphericalDelta ?S) = 0" "phi (sphericalDelta ?S) = 0"
    "px (rotateStart ?S) = 0" "py (rotateStart ?S) = 0" "clientX ?e = 600" "clientY ?e = 300"
    by (simp_all add: controls_eval)
  obtain s' where s': "moveRotate ?e ?S = Some s'"
    "theta (sphericalDelta s') =
       theta (sphericalDelta ?S) - pi * (clientX ?e - px (rotateStart ?S)) / clientHeight ?S"
    "phi (sphericalDelta s') =
       phi (sphericalDelta ?S) - pi * (clientY ?e - py (rotateStart ?S)) / clientHeight ?S"
    "rotateStart s' = \<lparr>px = clientX ?e, py = clientY ?e\<rparr>"
    "enabled ?S \<and> state ?S = ROTATE \<longrightarrow> onMouseMove ?e ?S = Some (update s')"
    using c6_rotate[OF h, of ?e] by blast
  have a: "theta (sphericalDelta s') = - pi" using s'(2) unfolding v by simp
  have b: "phi (sphericalDelta s') = - (pi / 2)" using s'(3) unfolding v by simp
  have r: "rotateStart s' = \<lparr>px = 600, py = 300\<rparr>" using s'(4) unfolding v by simp
  have m: "onMouseMove ?e ?S = Some (update s')" using s'(5) en by blast
  from h en s'(1) a b r m show ?thesis by blast
qed

subsection \<open>The polar angle and the distance stay within their bounds\<close>





subsection \<open>Damping\<close>

lemma funpow_update_config:
  "enableDamping ((update ^^ n) s) = enableDamping s \<and>
   dampingFactor ((update ^^ n) s) = dampingFactor s \<and>
   autoRotate ((update ^^ n) s) = autoRotate s \<and>
   state ((update ^^ n) s) = state s"
  by (induction n)
    (simp_all add: update_enableDamping update_dampingFactor update_autoRotate update_state)

lemma update_delta_damped:
  assumes "enableDamping t" and "\<not> (autoRotate t \<and> state t = NONE)"
  shows "theta (sphericalDelta (update t)) = (1 - dampingFactor t) * theta (sphericalDelta t)"
    and "phi (sphericalDelta (update t)) = (1 - dampingFactor t) * phi (sphericalDelta t)"
  using assms by (auto simp: update_delta_theta update_delta_phi)

lemma funpow_update_delta:
  assumes "enableDamping s" and "\<not> (autoRotate s \<and> state s = NONE)"
  shows "theta (sphericalDelta ((update ^^ n) s)) =
           (1 - dampingFactor s) ^ n * theta (sphericalDelta s) \<and>
         phi (sphericalDelta ((update ^^ n) s)) =
           (1 - dampingFactor s) ^ n * phi (sphericalDelta s)"
proof (induction n)
  case 0
  show ?case by simp
next
  case (Suc n)
  have c: "enableDamping ((update ^^ n) s)" "dampingFactor ((update ^^ n) s) = dampingFactor s"
    "\<not> (autoRotate ((update ^^ n) s) \<and> state ((update ^^ n) s) = NONE)"
    using assms funpow_update_config[of n s] by simp_all
  show ?case
    using Suc by (simp add: update_delta_damped[OF c(1) c(3)] c(2))
qed

lemma magnitude_scaled:
  assumes "0 \<le> k"
  shows "sqrt ((k * a)\<^sup>2 + (k * b)\<^sup>2) = k * sqrt (a\<^sup>2 + b\<^sup>2)"
proof -
  have "(k * a)\<^sup>2 + (k * b)\<^sup>2 = k\<^sup>2 * (a\<^sup>2 + b\<^sup>2)"
    by (simp add: power_mult_distrib algebra_simps)
  then show ?thesis using assms by (simp add: real_sqrt_mult)
qed

lemma funpow_update_magnitude:
  assumes "enableDamping s" and "dampingFactor s \<le> 1" and "\<not> (autoRotate s \<and> state s = NONE)"
  shows "pendingMagnitude ((update ^^ n) s) = (1 - dampingFactor s) ^ n * pendingMagnitude s"
  using assms(2) funpow_update_delta[OF assms(1,3), of n]
  by (simp add: pendingMagnitude_def magnitude_scaled)

text \<open>
  C9, as stated, fails: the controller is created with damping and with the automatic
  rotation enabled, and while it is idle every \<^verbatim>\<open>update\<close> first subtracts
  2 pi / 3600 * autoRotateSpeed from the azimuthal pending delta. With no input at all,
  the first update of the example takes the magnitude of the pending delta from 0 to a
  positive value.
\<close>

theorem c9_counterexample:
  "enableDamping example_controls \<and>
   pendingMagnitude example_controls < pendingMagnitude (update example_controls)"
proof -
  have t: "theta (sphericalDelta (update example_controls)) =
      (0 - 2 * pi / 60 / 60 * (3 / 10)) * (1 - 2 / 25)"
    by (simp add: update_delta_theta example_config)
  have p: "phi (sphericalDelta (update example_controls)) = 0"
    by (simp add: update_delta_phi example_config)
  have z: "pendingMagnitude example_controls = 0"
    by (simp add: pendingMagnitude_def example_config)
  have "pendingMagnitude (update example_controls) =
      \<bar>(0 - 2 * pi / 60 / 60 * (3 / 10)) * (1 - 2 / 25)\<bar>"
    unfolding pendingMagnitude_def t p by simp
  moreover have "0 < \<bar>(0 - 2 * pi / 60 / 60 * (3 / 10)) * (1 - 2 / 25)\<bar>"
    using pi_gt_zero by simp
  ultimately have "0 < pendingMagnitude (update example_controls)" by (simp only:)
  with z show ?thesis by (simp add: example_config)
qed

text \<open>
  C9, amended: with damping enabled, a damping factor in (0, 1], no input events
  delivered between calls, and the automatic rotation not acting (it is switched off,
  or a button is held), every call of \<^verbatim>\<open>update\<close> multiplies the azimuthal and the
  polar pending delta by 1 - dampingFactor: the magnitude of the pending delta never
  increases, decreases strictly while it is not zero, and converges to 0, as do both
  components.
\<close>

theorem c9_damping:
  assumes "enableDamping s" and "0 < dampingFactor s" and "dampingFactor s \<le> 1"
    and "\<not> (autoRotate s \<and> state s = NONE)"
  shows "pendingMagnitude ((update ^^ Suc n) s) \<le> pendingMagnitude ((update ^^ n) s) \<and>
         (pendingMagnitude ((update ^^ n) s) \<noteq> 0 \<longrightarrow>
            pendingMagnitude ((update ^^ Suc n) s) < pendingMagnitude ((update ^^ n) s)) \<and>
         (\<lambda>i. theta (sphericalDelta ((update ^^ i) s))) \<longlonglongrightarrow> 0 \<and>
         (\<lambda>i. phi (sphericalDelta ((update ^^ i) s))) \<longlonglongrightarrow> 0 \<and>
         (\<lambda>i. pendingMagnitude ((update ^^ i) s)) \<longlonglongrightarrow> 0"
proof -
  define k where "k = 1 - dampingFactor s"
  have k: "0 \<le> k" "k < 1" using assms(2,3) by (simp_all add: k_def)
  have mag: "pendingMagnitude ((update ^^ i) s) = k ^ i * pendingMagnitude s" for i
    unfolding k_def by (rule funpow_update_magnitude[OF assms(1,3,4)])
  have nn: "0 \<le> pendingMagnitude ((update ^^ n) s)"
    by (simp add: pendingMagnitude_def)
  have step: "pendingMagnitude ((update ^^ Suc n) s) = k * pendingMagnitude ((update ^^ n) s)"
    by (simp only: mag power_Suc mult.assoc)
  have le: "pendingMagnitude ((update ^^ Suc n) s) \<le> pendingMagnitude ((update ^^ n) s)"
    unfolding step using k nn by (simp add: mult_left_le_one_le)
  have lt: "pendingMagnitude ((update ^^ Suc n) s) < pendingMagnitude ((update ^^ n) s)"
    if "pendingMagnitude ((update ^^ n) s) \<noteq> 0"
  proof -
    from that nn have "0 < pendingMagnitude ((update ^^ n) s)" by simp
    then show ?thesis unfolding step using k by simp
  qed
  have pow: "(\<lambda>i. k ^ i) \<longlonglongrightarrow> 0"
    using k by (rule LIMSEQ_realpow_zero)
  have lim: "(\<lambda>i. k ^ i * c) \<longlonglongrightarrow> 0" for c :: real
    using tendsto_mult_left_zero[OF pow, of c] by simp
  have "(\<lambda>i. theta (sphericalDelta ((update ^^ i) s))) \<longlonglongrightarrow> 0"
    using lim[of "theta (sphericalDelta s)"] funpow_update_delta[OF assms(1,4)]
    by (simp add: k_def)
  moreover have "(\<lambda>i. phi (sphericalDelta ((update ^^ i) s))) \<longlonglongrightarrow> 0"
    using lim[of "phi (sphericalDelta s)"] funpow_update_delta[OF assms(1,4)]
    by (simp add: k_def)
  moreover have "(\<lambda>i. pendingMagnitude ((update ^^ i) s)) \<longlonglongrightarrow> 0"
    using lim[of "pendingMagnitude s"] by (simp add: mag)
  ultimately show ?thesis using le lt by blast
qed

theorem c9_damping_witness:
  "enableDamping coasting_controls \<and> 0 < dampingFactor coasting_controls \<and>
   dampingFactor coasting_controls \<le> 1 \<and>
   \<not> (autoRotate coasting_controls \<and> state coasting_controls = NONE) \<and>
   pendingMagnitude ((update ^^ 0) coasting_controls) \<noteq> 0 \<and>
   pendingMagnitude ((update ^^ Suc 0) coasting_controls) <
     pendingMagnitude ((update ^^ 0) coasting_controls) \<and>
   (\<lambda>i. pendingMagnitude ((update ^^ i) coasting_controls)) \<longlonglongrightarrow> 0"
proof -
  have h1: "enableDamping coasting_controls"
    and h2: "0 < dampingFactor coasting_controls"
    and h3: "dampingFactor coasting_controls \<le> 1"
    and h4: "\<not> (autoRotate coasting_controls \<and> state coasting_controls = NONE)"
    by (simp_all add: coasting_controls_def controls_eval)
  have "pendingMagnitude coasting_controls = sqrt 25"
    by (simp add: pendingMagnitude_def coasting_controls_def controls_eval)
  then have h5: "pendingMagnitude ((update ^^ 0) coasting_controls) \<noteq> 0"
    by simp
  note c = c9_damping[OF h1 h2 h3 h4]
  have a: "pendingMagnitude ((update ^^ Suc 0) coasting_controls) <
     pendingMagnitude ((update ^^ 0) coasting_controls)"
    using c[of 0] h5 by blast
  have b: "(\<lambda>i. pendingMagnitude ((update ^^ i) coasting_controls)) \<longlonglongrightarrow> 0"
    using c[of 0] by blast
  from h1 h2 h3 h4 h5 a b show ?thesis by blast
qed

end
